theory Spec2Isabelle
  imports Main "HOL-Library.Sublist"
begin

section \<open>JavaScript values\<close>

text \<open>
  The batches checked by the validator and the payloads of the data source are decoded
  JSON, so they are modelled as JSON values plus \<open>undefined\<close>. A number is identified
  by its canonical rendering \<open>String(n)\<close>, which determines it; the two observations the
  code makes of a number (its truthiness and its rendering) are read off that string.
  Strings are Isabelle strings; \<open>length\<close> counts their characters.
\<close>

datatype jsval =
    JUndefined
  | JNull
  | JBool bool
  | JNum string
  | JStr string
  | JArr "jsval list"
  | JObj "(string \<times> jsval) list"

text \<open>
  A thrown value: every throw of the modelled code is an \<open>Error\<close> object. \<open>errCode\<close> is
  the \<open>code\<close> property (set by \<open>ValidationError\<close> and by the HTTP client),
  \<open>errResponse\<close> the status and status text of an HTTP error response.
\<close>

record js_error =
  errName :: string
  errMessage :: string
  errCode :: "string option"
  errResponse :: "(nat \<times> string) option"

definition Error :: "string \<Rightarrow> js_error" where
  "Error msg = \<lparr>errName = ''Error'', errMessage = msg, errCode = None, errResponse = None\<rparr>"

definition TypeError :: "string \<Rightarrow> js_error" where
  "TypeError msg = \<lparr>errName = ''TypeError'', errMessage = msg, errCode = None, errResponse = None\<rparr>"

text \<open>\<open>class ValidationError extends Error\<close>, with its default code.\<close>

definition ValidationError :: "string \<Rightarrow> string option \<Rightarrow> js_error" where
  "ValidationError msg code =
     \<lparr>errName = ''ValidationError'', errMessage = msg,
      errCode = Some (case code of None \<Rightarrow> ''VALIDATION_ERROR'' | Some c \<Rightarrow> c),
      errResponse = None\<rparr>"

text \<open>Sequencing of computations that may throw: \<open>Inl\<close> is the thrown error.\<close>

definition bind_err :: "js_error + 'a \<Rightarrow> ('a \<Rightarrow> js_error + 'b) \<Rightarrow> js_error + 'b" where
  "bind_err m f = (case m of Inl e \<Rightarrow> Inl e | Inr x \<Rightarrow> f x)"

definition digit_char :: "nat \<Rightarrow> char" where
  "digit_char n = ''0123456789'' ! n"

fun show_nat :: "nat \<Rightarrow> string" where
  "show_nat n = (if n < 10 then [digit_char n] else show_nat (n div 10) @ [digit_char (n mod 10)])"

declare show_nat.simps [simp del]

fun js_truthy :: "jsval \<Rightarrow> bool" where
  "js_truthy JUndefined = False"
| "js_truthy JNull = False"
| "js_truthy (JBool b) = b"
| "js_truthy (JNum s) = (s \<noteq> ''0'' \<and> s \<noteq> ''NaN'')"
| "js_truthy (JStr s) = (s \<noteq> [])"
| "js_truthy (JArr xs) = True"
| "js_truthy (JObj kvs) = True"

fun js_typeof :: "jsval \<Rightarrow> string" where
  "js_typeof JUndefined = ''undefined''"
| "js_typeof JNull = ''object''"
| "js_typeof (JBool b) = ''boolean''"
| "js_typeof (JNum s) = ''number''"
| "js_typeof (JStr s) = ''string''"
| "js_typeof (JArr xs) = ''object''"
| "js_typeof (JObj kvs) = ''object''"

fun isArray :: "jsval \<Rightarrow> bool" where
  "isArray (JArr xs) = True"
| "isArray v = False"

text \<open>
  Property read \<open>v.k\<close>. Reading a property of \<open>null\<close> or \<open>undefined\<close> throws a
  TypeError; an object yields the value bound to the key or \<open>undefined\<close>; arrays and
  strings have \<open>length\<close>. The property names read by the modelled code are
  \<open>endpoint\<close>, \<open>params\<close>, \<open>s\<close>, \<open>i\<close>, \<open>c\<close>, \<open>api_calls\<close>, \<open>direct_response\<close>,
  \<open>meals\<close>, \<open>strInstructions\<close>, \<open>idMeal\<close> and \<open>length\<close>, none of which is inherited.
\<close>

fun js_get :: "jsval \<Rightarrow> string \<Rightarrow> js_error + jsval" where
  "js_get JUndefined k =
     Inl (TypeError (''Cannot read properties of undefined (reading '' @ [CHR 0x27] @ k @ [CHR 0x27] @ '')''))"
| "js_get JNull k =
     Inl (TypeError (''Cannot read properties of null (reading '' @ [CHR 0x27] @ k @ [CHR 0x27] @ '')''))"
| "js_get (JObj kvs) k = Inr (case map_of kvs k of Some v \<Rightarrow> v | None \<Rightarrow> JUndefined)"
| "js_get (JArr xs) k = Inr (if k = ''length'' then JNum (show_nat (length xs)) else JUndefined)"
| "js_get (JStr s) k = Inr (if k = ''length'' then JNum (show_nat (length s)) else JUndefined)"
| "js_get (JBool b) k = Inr JUndefined"
| "js_get (JNum s) k = Inr JUndefined"

fun js_join :: "string \<Rightarrow> string list \<Rightarrow> string" where
  "js_join sep [] = []"
| "js_join sep [x] = x"
| "js_join sep (x # y # ys) = x @ sep @ js_join sep (y # ys)"

text \<open>\<open>String(v)\<close>, the conversion made by a template literal and by \<open>RegExp.test\<close>.\<close>

fun js_toString :: "jsval \<Rightarrow> string" where
  "js_toString JUndefined = ''undefined''"
| "js_toString JNull = ''null''"
| "js_toString (JBool b) = (if b then ''true'' else ''false'')"
| "js_toString (JNum s) = s"
| "js_toString (JStr s) = s"
| "js_toString (JArr xs) =
     js_join '','' (map (\<lambda>x. if x = JNull \<or> x = JUndefined then [] else js_toString x) xs)"
| "js_toString (JObj kvs) = ''[object Object]''"

text \<open>\<open>String.prototype.toLowerCase\<close> on the letters A to Z.\<close>

definition toLowerCase_char :: "char \<Rightarrow> char" where
  "toLowerCase_char ch =
     (case map_of (zip ''ABCDEFGHIJKLMNOPQRSTUVWXYZ'' ''abcdefghijklmnopqrstuvwxyz'') ch of
        Some l \<Rightarrow> l | None \<Rightarrow> ch)"

definition toLowerCase :: "string \<Rightarrow> string" where
  "toLowerCase s = map toLowerCase_char s"

text \<open>The regular expression \<open>/^\d+$/\<close>.\<close>

definition is_digit :: "char \<Rightarrow> bool" where
  "is_digit ch = (ch \<in> set ''0123456789'')"

definition matches_digits :: "string \<Rightarrow> bool" where
  "matches_digits s = (s \<noteq> [] \<and> list_all is_digit s)"

section \<open>utils/prompts.js: the vocabularies\<close>

definition MEALDB_CATEGORIES :: "string list" where
  "MEALDB_CATEGORIES =
     [''Beef'', ''Breakfast'', ''Chicken'', ''Dessert'', ''Goat'', ''Lamb'',
      ''Miscellaneous'', ''Pasta'', ''Pork'', ''Seafood'', ''Side'', ''Starter'',
      ''Vegan'', ''Vegetarian'']"

definition COMMON_INGREDIENTS :: "string list" where
  "COMMON_INGREDIENTS =
     [''Chicken'', ''Salmon'', ''Beef'', ''Pork'', ''Avocado'', ''Bacon'', ''Basil'',
      ''Basmati Rice'', ''Bread'', ''Broccoli'', ''Brown Rice'', ''Butter'', ''Carrots'',
      ''Cheddar Cheese'', ''Cheese'', ''Cherry Tomatoes'', ''Chicken Breast'',
      ''Chicken Stock'', ''Chickpeas'', ''Cilantro'', ''Coconut Milk'', ''Cod'',
      ''Coriander'', ''Cream'', ''Cucumber'', ''Cumin'', ''Eggs'', ''Extra Virgin Olive Oil'',
      ''Flour'', ''Garlic'', ''Ginger'', ''Honey'', ''Lemon'', ''Lime'', ''Milk'', ''Mushrooms'',
      ''Onion'', ''Parsley'', ''Pasta'', ''Potatoes'', ''Prawns'', ''Rice'', ''Salt'',
      ''Spinach'', ''Tomatoes'', ''Tuna'', ''Yogurt'', ''Black Pepper'', ''Olive Oil'',
      ''Soy Sauce'', ''Vinegar'', ''Wine'', ''Sugar'', ''Lamb'', ''Turkey'', ''Duck'',
      ''Asparagus'', ''Aubergine'', ''Bell Pepper'', ''Cabbage'', ''Celery'', ''Courgettes'',
      ''Green Beans'', ''Leeks'', ''Peas'', ''Red Onion'', ''Sweet Potato'']"

section \<open>utils/validators.js\<close>

definition ALLOWED_ENDPOINTS :: "string list" where
  "ALLOWED_ENDPOINTS = [''search.php'', ''filter.php'', ''lookup.php'']"

record param_rule =
  ruleType :: string
  maxLength :: nat
  required :: bool
  enum :: "string list option"

definition PARAM_RULES :: "string \<Rightarrow> param_rule option" where
  "PARAM_RULES k =
     (if k = ''s'' then
        Some \<lparr>ruleType = ''string'', maxLength = 100, required = True, enum = None\<rparr>
      else if k = ''i'' then
        Some \<lparr>ruleType = ''string'', maxLength = 50, required = True,
              enum = Some (map toLowerCase COMMON_INGREDIENTS)\<rparr>
      else if k = ''c'' then
        Some \<lparr>ruleType = ''string'', maxLength = 30, required = True,
              enum = Some (map toLowerCase MEALDB_CATEGORIES)\<rparr>
      else None)"

text \<open>
  \<open>MAX_API_CALLS = parseInt(process.env.MAX_API_CALLS_PER_REQUEST) || 5\<close>: the argument
  is the result of \<open>parseInt\<close>, \<open>None\<close> for \<open>NaN\<close> (the variable unset or not a number).
\<close>

definition MAX_API_CALLS :: "int option \<Rightarrow> int" where
  "MAX_API_CALLS parsed = (case parsed of None \<Rightarrow> 5 | Some n \<Rightarrow> if n = 0 then 5 else n)"

definition validateApiCallStructure :: "jsval \<Rightarrow> js_error + unit" where
  "validateApiCallStructure apiCall =
     (if \<not> js_truthy apiCall \<or> js_typeof apiCall \<noteq> ''object''
      then Inl (ValidationError ''API call must be an object'' (Some ''INVALID_API_CALL''))
      else Inr ())"

definition validateEndpoint :: "jsval \<Rightarrow> js_error + unit" where
  "validateEndpoint endpoint =
     (if \<not> js_truthy endpoint \<or> js_typeof endpoint \<noteq> ''string''
      then Inl (ValidationError ''Endpoint is required and must be a string'' (Some ''INVALID_ENDPOINT''))
      else if js_toString endpoint \<notin> set ALLOWED_ENDPOINTS
      then Inl (ValidationError (''Endpoint not allowed: '' @ js_toString endpoint)
                  (Some ''ENDPOINT_NOT_ALLOWED''))
      else Inr ())"

definition validateParams :: "jsval \<Rightarrow> js_error + unit" where
  "validateParams params =
     (if \<not> js_truthy params \<or> js_typeof params \<noteq> ''object''
      then Inl (ValidationError ''Params are required and must be an object'' (Some ''INVALID_PARAMS''))
      else Inr ())"

text \<open>
  After the type check every rule's value is a string, all three rules having type
  \<open>string\<close>; the length comparison is therefore made on strings (and arrays), any other
  value having no numeric \<open>length\<close> to compare.
\<close>

definition validateParamBasics :: "string \<Rightarrow> jsval \<Rightarrow> param_rule \<Rightarrow> js_error + unit" where
  "validateParamBasics paramName v rule =
     bind_err
       (if required rule then
          (if \<not> js_truthy v then Inr True
           else bind_err (js_get v ''length'') (\<lambda>l. Inr (l = JNum ''0'')))
        else Inr False)
       (\<lambda>missing.
          if missing then
            Inl (ValidationError (''Parameter \"'' @ paramName @ ''\" is required'')
                   (Some ''MISSING_REQUIRED_PARAM''))
          else if ruleType rule = ''string'' \<and> js_typeof v \<noteq> ''string'' then
            Inl (ValidationError (''Parameter \"'' @ paramName @ ''\" must be a string'')
                   (Some ''INVALID_PARAM_TYPE''))
          else if maxLength rule \<noteq> 0 \<and>
                  (case v of JStr s \<Rightarrow> length s > maxLength rule
                           | JArr xs \<Rightarrow> length xs > maxLength rule
                           | _ \<Rightarrow> False) then
            Inl (ValidationError (''Parameter \"'' @ paramName @ ''\" too long. Maximum ''
                     @ show_nat (maxLength rule) @ '' characters'')
                   (Some ''PARAM_TOO_LONG''))
          else Inr ())"

definition validateParamEnum :: "string \<Rightarrow> jsval \<Rightarrow> param_rule \<Rightarrow> js_error + unit" where
  "validateParamEnum paramName v rule =
     (case enum rule of
        None \<Rightarrow> Inr ()
      | Some options \<Rightarrow>
          if paramName \<noteq> ''i'' then
            (case v of
               JStr s \<Rightarrow>
                 if toLowerCase s \<notin> set options then
                   Inl (ValidationError
                          (''Invalid '' @ (if paramName = ''c'' then ''category'' else ''ingredient'')
                             @ '': \"'' @ s @ ''\". Valid options include: ''
                             @ js_join '', '' (take 10 (if paramName = ''c'' then MEALDB_CATEGORIES
                                                        else COMMON_INGREDIENTS))
                             @ ''...'')
                          (Some ''INVALID_ENUM_VALUE''))
                 else Inr ()
             | _ \<Rightarrow> Inl (TypeError ''value.toLowerCase is not a function''))
          else Inr ())"

definition validateParam :: "string \<Rightarrow> jsval \<Rightarrow> js_error + unit" where
  "validateParam paramName v =
     (case PARAM_RULES paramName of
        None \<Rightarrow> Inl (ValidationError (''Unknown parameter: '' @ paramName) (Some ''UNKNOWN_PARAMETER''))
      | Some rule \<Rightarrow>
          bind_err (validateParamBasics paramName v rule)
            (\<lambda>_. validateParamEnum paramName v rule))"

definition validateSearchParams :: "jsval \<Rightarrow> js_error + unit" where
  "validateSearchParams params =
     bind_err (js_get params ''s'') (\<lambda>s.
       if \<not> js_truthy s then
         Inl (ValidationError ''Search parameter \"s\" is required'' (Some ''MISSING_SEARCH_PARAM''))
       else validateParam ''s'' s)"

definition validateFilterParamPresence :: "jsval \<Rightarrow> jsval \<Rightarrow> js_error + unit" where
  "validateFilterParamPresence hasIngredient hasCategory =
     (if \<not> js_truthy hasIngredient \<and> \<not> js_truthy hasCategory then
        Inl (ValidationError ''Filter requires either ingredient (i) or category (c) parameter''
               (Some ''MISSING_FILTER_PARAM''))
      else if js_truthy hasIngredient \<and> js_truthy hasCategory then
        Inl (ValidationError ''Filter can only use one parameter: ingredient (i) or category (c)''
               (Some ''TOO_MANY_FILTER_PARAMS''))
      else Inr ())"

definition validateFilterParamValues :: "jsval \<Rightarrow> jsval \<Rightarrow> jsval \<Rightarrow> js_error + unit" where
  "validateFilterParamValues params hasIngredient hasCategory =
     bind_err
       (if js_truthy hasIngredient
        then bind_err (js_get params ''i'') (validateParam ''i'') else Inr ())
       (\<lambda>_. if js_truthy hasCategory
             then bind_err (js_get params ''c'') (validateParam ''c'') else Inr ())"

definition validateFilterParams :: "jsval \<Rightarrow> js_error + unit" where
  "validateFilterParams params =
     bind_err (js_get params ''i'') (\<lambda>hasIngredient.
     bind_err (js_get params ''c'') (\<lambda>hasCategory.
     bind_err (validateFilterParamPresence hasIngredient hasCategory) (\<lambda>_.
       validateFilterParamValues params hasIngredient hasCategory)))"

definition validateLookupParams :: "jsval \<Rightarrow> js_error + unit" where
  "validateLookupParams params =
     bind_err (js_get params ''i'') (\<lambda>i.
       if \<not> js_truthy i then
         Inl (ValidationError ''Lookup parameter \"i\" (meal ID) is required''
                (Some ''MISSING_LOOKUP_PARAM''))
       else if \<not> matches_digits (js_toString i) then
         Inl (ValidationError ''Lookup parameter \"i\" must be a numeric meal ID''
                (Some ''INVALID_MEAL_ID''))
       else Inr ())"

definition validateEndpointSpecificParams :: "jsval \<Rightarrow> jsval \<Rightarrow> js_error + unit" where
  "validateEndpointSpecificParams endpoint params =
     (if endpoint = JStr ''search.php'' then validateSearchParams params
      else if endpoint = JStr ''filter.php'' then validateFilterParams params
      else if endpoint = JStr ''lookup.php'' then validateLookupParams params
      else Inr ())"

definition validateApiCall :: "jsval \<Rightarrow> js_error + bool" where
  "validateApiCall apiCall =
     bind_err (validateApiCallStructure apiCall) (\<lambda>_.
     bind_err (js_get apiCall ''endpoint'') (\<lambda>endpoint.
     bind_err (js_get apiCall ''params'') (\<lambda>params.
     bind_err (validateEndpoint endpoint) (\<lambda>_.
     bind_err (validateParams params) (\<lambda>_.
     bind_err (validateEndpointSpecificParams endpoint params) (\<lambda>_.
       Inr True))))))"

text \<open>The \<open>forEach\<close> of \<open>validateApiCalls\<close>, which rethrows the first failure with its index.\<close>

fun validateApiCalls_forEach :: "nat \<Rightarrow> jsval list \<Rightarrow> js_error + unit" where
  "validateApiCalls_forEach index [] = Inr ()"
| "validateApiCalls_forEach index (apiCall # rest) =
     (case validateApiCall apiCall of
        Inl error \<Rightarrow>
          Inl (ValidationError
                 (''Invalid API call at index '' @ show_nat index @ '': '' @ errMessage error)
                 (errCode error))
      | Inr _ \<Rightarrow> validateApiCalls_forEach (Suc index) rest)"

definition validateApiCalls :: "int \<Rightarrow> jsval \<Rightarrow> js_error + bool" where
  "validateApiCalls maxCalls apiCalls =
     (case apiCalls of
        JArr calls \<Rightarrow>
          if length calls = 0 then
            Inl (ValidationError ''At least one API call is required'' (Some ''NO_API_CALLS''))
          else if int (length calls) > maxCalls then
            Inl (ValidationError (''Too many API calls. Maximum ''
                     @ (if maxCalls < 0 then ''-'' else []) @ show_nat (nat \<bar>maxCalls\<bar>) @ '' allowed'')
                   (Some ''TOO_MANY_API_CALLS''))
          else bind_err (validateApiCalls_forEach 0 calls) (\<lambda>_. Inr True)
      | _ \<Rightarrow> Inl (ValidationError ''API calls must be an array'' (Some ''INVALID_API_CALLS_FORMAT'')))"

section \<open>The environment of the services\<close>

text \<open>
  What the modelled code takes from outside: the JSON decoder of the platform, the
  generation backend behind \<open>invokeModel\<close>, the HTTP client of the data source, the UUID
  generator, the clock and the two configured limits. The prompt builders of
  \<open>utils/prompts.js\<close> and the text fallback \<open>createFallbackResponse\<close> produce text that no
  modelled decision reads; they are parameters too, and may throw. A prompt is a value of
  the type \<open>'p\<close>. Each oracle is a function of its argument, the clock and the UUID
  generator of the number of earlier reads.
\<close>

datatype 'p event =
    Debug string
  | Invoke 'p
  | Get jsval jsval

record op_result =
  res_error :: bool
  res_message :: "string option"
  res_endpoint :: jsval
  res_params :: jsval
  res_meals :: "jsval list option"
  res_count :: "nat option"
  res_isEmpty :: bool
  res_rawData :: jsval

record hist_message =
  role :: string
  content :: jsval
  timestamp :: int

record 'p env =
  JSON_parse :: "string \<Rightarrow> jsval option"
  createPhase1Prompt :: "string \<Rightarrow> hist_message list \<Rightarrow> 'p"
  createPhase2Prompt :: "string \<Rightarrow> op_result list \<Rightarrow> js_error + 'p"
  createSynthesisPrompt :: "string \<Rightarrow> op_result list \<Rightarrow> hist_message list \<Rightarrow> js_error + 'p"
  invokeModel :: "'p \<Rightarrow> js_error + string"
  createFallbackResponse :: "op_result list \<Rightarrow> string \<Rightarrow> js_error + string"
  client_get :: "jsval \<Rightarrow> jsval \<Rightarrow> js_error + jsval"
  uuidv4 :: "nat \<Rightarrow> string"
  clock :: "nat \<Rightarrow> int"
  max_api_calls :: int
  maxConversationLength :: int

section \<open>services/mealdbService.js\<close>

definition determineErrorMessage :: "js_error \<Rightarrow> string" where
  "determineErrorMessage error =
     (if errCode error = Some ''ENOTFOUND'' then ''MealDB service is currently unavailable''
      else if errCode error = Some ''ECONNABORTED'' then ''MealDB request timed out''
      else (case errResponse error of
              Some (status, statusText) \<Rightarrow>
                ''MealDB API error: '' @ show_nat status @ '' '' @ statusText
            | None \<Rightarrow> ''Network error: '' @ errMessage error))"

definition logAndThrowError :: "js_error \<Rightarrow> js_error + 'a" where
  "logAndThrowError error = Inl (Error (determineErrorMessage error))"

text \<open>
  The URL is represented by the endpoint and the parameters it is computed from;
  \<open>Object.entries\<close> throws on \<open>null\<close> and \<open>undefined\<close>.
\<close>

definition buildURL :: "jsval \<Rightarrow> jsval \<Rightarrow> js_error + (jsval \<times> jsval)" where
  "buildURL endpoint params =
     (if params = JNull \<or> params = JUndefined
      then Inl (TypeError ''Cannot convert undefined or null to object'')
      else Inr (endpoint, params))"

definition createEmptyResponse :: "string \<Rightarrow> op_result" where
  "createEmptyResponse msg =
     \<lparr>res_error = False, res_message = Some msg, res_endpoint = JUndefined,
      res_params = JUndefined, res_meals = None, res_count = None, res_isEmpty = True,
      res_rawData = JUndefined\<rparr>"

definition createValidResponse :: "jsval list \<Rightarrow> op_result" where
  "createValidResponse meals =
     \<lparr>res_error = False, res_message = None, res_endpoint = JUndefined,
      res_params = JUndefined, res_meals = Some meals, res_count = Some (length meals),
      res_isEmpty = False, res_rawData = JUndefined\<rparr>"

definition createUnexpectedResponse :: "jsval \<Rightarrow> op_result" where
  "createUnexpectedResponse data =
     \<lparr>res_error = False, res_message = Some ''Unexpected response format from MealDB'',
      res_endpoint = JUndefined, res_params = JUndefined, res_meals = None, res_count = None,
      res_isEmpty = True, res_rawData = data\<rparr>"

definition processResponse :: "jsval \<Rightarrow> jsval \<Rightarrow> js_error + op_result" where
  "processResponse data endpoint =
     (if \<not> js_truthy data then Inr (createEmptyResponse ''No data received from MealDB'')
      else bind_err (js_get data ''meals'') (\<lambda>meals.
        if meals = JNull then
          Inr (createEmptyResponse (''No results found for '' @ js_toString endpoint))
        else (case meals of
                JArr ms \<Rightarrow> Inr (createValidResponse ms)
              | _ \<Rightarrow> Inr (createUnexpectedResponse data))))"

definition executeCall :: "'p env \<Rightarrow> jsval \<Rightarrow> jsval \<Rightarrow> 'p event list \<times> (js_error + op_result)" where
  "executeCall env endpoint params =
     (case buildURL endpoint params of
        Inl error \<Rightarrow> ([], logAndThrowError error)
      | Inr url \<Rightarrow>
          (case client_get env (fst url) (snd url) of
             Inl error \<Rightarrow> ([Get (fst url) (snd url)], logAndThrowError error)
           | Inr data \<Rightarrow>
               ([Get (fst url) (snd url)],
                (case processResponse data endpoint of
                   Inl error \<Rightarrow> logAndThrowError error
                 | Inr r \<Rightarrow> Inr r))))"

definition createBatchErrorResult :: "js_error \<Rightarrow> jsval \<Rightarrow> js_error + op_result" where
  "createBatchErrorResult error call =
     bind_err (js_get call ''endpoint'') (\<lambda>endpoint.
     bind_err (js_get call ''params'') (\<lambda>params.
       Inr \<lparr>res_error = True, res_message = Some (errMessage error), res_endpoint = endpoint,
            res_params = params, res_meals = None, res_count = None, res_isEmpty = False,
            res_rawData = JUndefined\<rparr>))"

text \<open>
  One promise of \<open>createBatchPromises\<close>: \<open>Inr\<close> is a fulfilled promise, \<open>Inl\<close> a rejected
  one.
\<close>

definition createBatchPromise :: "'p env \<Rightarrow> jsval \<Rightarrow> 'p event list \<times> (js_error + op_result)" where
  "createBatchPromise env call =
     (case bind_err (js_get call ''endpoint'') (\<lambda>endpoint.
           bind_err (js_get call ''params'') (\<lambda>params. Inr (endpoint, params))) of
        Inl error \<Rightarrow> ([], createBatchErrorResult error call)
      | Inr args \<Rightarrow>
          (case executeCall env (fst args) (snd args) of
             (evs, Inl error) \<Rightarrow> (evs, createBatchErrorResult error call)
           | (evs, Inr r) \<Rightarrow> (evs, Inr r)))"

definition handleRejectedBatchResult :: "js_error \<Rightarrow> jsval \<Rightarrow> js_error + op_result" where
  "handleRejectedBatchResult reason apiCall =
     bind_err (js_get apiCall ''endpoint'') (\<lambda>endpoint.
     bind_err (js_get apiCall ''params'') (\<lambda>params.
       Inr \<lparr>res_error = True,
            res_message = Some (if errMessage reason \<noteq> [] then errMessage reason
                                else ''Unknown error''),
            res_endpoint = endpoint, res_params = params, res_meals = None, res_count = None,
            res_isEmpty = False, res_rawData = JUndefined\<rparr>))"

fun processBatchResults :: "(js_error + op_result) list \<Rightarrow> jsval list \<Rightarrow> js_error + op_result list" where
  "processBatchResults (result # results) (apiCall # apiCalls) =
     bind_err (case result of
                 Inr v \<Rightarrow> Inr v
               | Inl reason \<Rightarrow> handleRejectedBatchResult reason apiCall) (\<lambda>r.
     bind_err (processBatchResults results apiCalls) (\<lambda>rs. Inr (r # rs)))"
| "processBatchResults results apiCalls = Inr []"

definition executeBatch :: "'p env \<Rightarrow> jsval \<Rightarrow> 'p event list \<times> (js_error + op_result list)" where
  "executeBatch env apiCalls =
     (case apiCalls of
        JArr calls \<Rightarrow>
          if length calls = 0 then ([], Inr [])
          else (let settled = map (createBatchPromise env) calls
                in (concat (map fst settled), processBatchResults (map snd settled) calls))
      | _ \<Rightarrow> ([], Inr []))"

definition hasResults :: "op_result \<Rightarrow> bool" where
  "hasResults response =
     (case res_meals response of
        None \<Rightarrow> False
      | Some meals \<Rightarrow> length meals > 0 \<and> \<not> res_isEmpty response)"

definition isFilterResult :: "op_result \<Rightarrow> js_error + bool" where
  "isFilterResult response =
     (if hasResults response then
        (case res_meals response of
           Some (firstMeal # rest) \<Rightarrow>
             bind_err (js_get firstMeal ''strInstructions'') (\<lambda>v. Inr (\<not> js_truthy v))
         | _ \<Rightarrow> Inr False)
      else Inr False)"

section \<open>services/aiService.js\<close>

definition parseAnalysisResponse :: "'p env \<Rightarrow> string \<Rightarrow> js_error + jsval" where
  "parseAnalysisResponse env response =
     (case JSON_parse env response of
        Some parsed \<Rightarrow>
          bind_err (js_get parsed ''api_calls'') (\<lambda>api_calls.
            if js_truthy api_calls \<and> isArray api_calls then Inr parsed
            else Inr (JObj [(''direct_response'', JStr response)]))
      | None \<Rightarrow> Inr (JObj [(''direct_response'', JStr response)]))"

definition analyzePipeline :: "'p env \<Rightarrow> string \<Rightarrow> hist_message list \<Rightarrow> 'p event list \<times> (js_error + jsval)" where
  "analyzePipeline env userMessage conversationHistory =
     (let prompt = createPhase1Prompt env userMessage conversationHistory
      in ([Invoke prompt],
          (case bind_err (invokeModel env prompt) (parseAnalysisResponse env) of
             Inl error \<Rightarrow> Inl (Error (''Failed to analyze user intent: '' @ errMessage error))
           | Inr r \<Rightarrow> Inr r)))"

text \<open>
  The two nested loops of \<open>createFallbackSelection\<close>: the inner one over the first three
  meals of one result, the outer one over the results; each stops once three calls are
  collected.
\<close>

fun createFallbackSelection_meals :: "jsval list \<Rightarrow> jsval list \<Rightarrow> js_error + jsval list" where
  "createFallbackSelection_meals [] fallbackCalls = Inr fallbackCalls"
| "createFallbackSelection_meals (meal # selectedMeals) fallbackCalls =
     bind_err (js_get meal ''idMeal'') (\<lambda>idMeal.
       let fallbackCalls' = fallbackCalls @
             [JObj [(''endpoint'', JStr ''lookup.php''), (''params'', JObj [(''i'', idMeal)])]]
       in if length fallbackCalls' \<ge> 3 then Inr fallbackCalls'
          else createFallbackSelection_meals selectedMeals fallbackCalls')"

fun createFallbackSelection_results :: "op_result list \<Rightarrow> jsval list \<Rightarrow> js_error + jsval list" where
  "createFallbackSelection_results [] fallbackCalls = Inr fallbackCalls"
| "createFallbackSelection_results (result # filterResults) fallbackCalls =
     (case res_meals result of
        None \<Rightarrow> createFallbackSelection_results filterResults fallbackCalls
      | Some meals \<Rightarrow>
          if length meals > 0 then
            bind_err (createFallbackSelection_meals (take 3 meals) fallbackCalls) (\<lambda>fallbackCalls'.
              if length fallbackCalls' \<ge> 3 then Inr fallbackCalls'
              else createFallbackSelection_results filterResults fallbackCalls')
          else createFallbackSelection_results filterResults fallbackCalls)"

definition createFallbackSelection :: "op_result list \<Rightarrow> js_error + jsval list" where
  "createFallbackSelection filterResults = createFallbackSelection_results filterResults []"

definition createFallbackSelectionResult :: "op_result list \<Rightarrow> js_error + jsval" where
  "createFallbackSelectionResult filterResults =
     bind_err (createFallbackSelection filterResults) (\<lambda>fallbackCalls.
       Inr (JObj [(''api_calls'', JArr fallbackCalls)]))"

definition parseSelectionResponse :: "'p env \<Rightarrow> string \<Rightarrow> op_result list \<Rightarrow> js_error + jsval" where
  "parseSelectionResponse env response filterResults =
     (case JSON_parse env response of
        Some parsed \<Rightarrow>
          bind_err (js_get parsed ''api_calls'') (\<lambda>api_calls.
            if js_truthy api_calls \<and> isArray api_calls then Inr parsed
            else createFallbackSelectionResult filterResults)
      | None \<Rightarrow> createFallbackSelectionResult filterResults)"

definition selectRecipes :: "'p env \<Rightarrow> op_result list \<Rightarrow> string \<Rightarrow> 'p event list \<times> (js_error + jsval)" where
  "selectRecipes env filterResults userMessage =
     (case createPhase2Prompt env userMessage filterResults of
        Inl error \<Rightarrow> ([], Inl error)
      | Inr prompt \<Rightarrow>
          ([Invoke prompt],
           (case bind_err (invokeModel env prompt)
                   (\<lambda>response. parseSelectionResponse env response filterResults) of
              Inl error \<Rightarrow> createFallbackSelectionResult filterResults
            | Inr r \<Rightarrow> Inr r)))"

definition synthesizeResponse ::
    "'p env \<Rightarrow> op_result list \<Rightarrow> string \<Rightarrow> hist_message list \<Rightarrow> 'p event list \<times> (js_error + string)" where
  "synthesizeResponse env mealData userMessage conversationHistory =
     (case createSynthesisPrompt env userMessage mealData conversationHistory of
        Inl error \<Rightarrow> ([], Inl error)
      | Inr prompt \<Rightarrow>
          ([Invoke prompt],
           (case invokeModel env prompt of
              Inl error \<Rightarrow> createFallbackResponse env mealData userMessage
            | Inr response \<Rightarrow> Inr response)))"

section \<open>services/ragPipeline.js: SessionManager\<close>

record session =
  session_id :: string
  history :: "hist_message list"
  lastMealData :: "op_result list option"
  createdAt :: int
  lastActivity :: int

text \<open>
  The state of the process: the session map, and how many times the clock and the UUID
  generator have been read.
\<close>

record world =
  sessions :: "string \<rightharpoonup> session"
  ticks :: nat
  uuids :: nat

definition new_Date :: "'p env \<Rightarrow> world \<Rightarrow> int \<times> world" where
  "new_Date env w = (clock env (ticks w), w\<lparr>ticks := Suc (ticks w)\<rparr>)"

definition next_uuid :: "'p env \<Rightarrow> world \<Rightarrow> string \<times> world" where
  "next_uuid env w = (uuidv4 env (uuids w), w\<lparr>uuids := Suc (uuids w)\<rparr>)"

text \<open>
  \<open>this.maxConversationLength = parseInt(process.env.MAX_CONVERSATION_LENGTH) || 10\<close>, the
  argument being the result of \<open>parseInt\<close> (\<open>None\<close> for \<open>NaN\<close>).
\<close>

definition SessionManager_maxConversationLength :: "int option \<Rightarrow> int" where
  "SessionManager_maxConversationLength parsed =
     (case parsed of None \<Rightarrow> 10 | Some n \<Rightarrow> if n = 0 then 10 else n)"

definition createSession :: "'p env \<Rightarrow> string option \<Rightarrow> world \<Rightarrow> session \<times> world" where
  "createSession env ident w =
     (let (sessionId, w1) =
            (case ident of
               Some given \<Rightarrow> if given \<noteq> [] then (given, w) else next_uuid env w
             | None \<Rightarrow> next_uuid env w);
          (created, w2) = new_Date env w1;
          (active, w3) = new_Date env w2;
          session = \<lparr>session_id = sessionId, history = [], lastMealData = None,
                     createdAt = created, lastActivity = active\<rparr>
      in (session, w3\<lparr>sessions := (sessions w3)(sessionId \<mapsto> session)\<rparr>))"

definition getSession :: "'p env \<Rightarrow> string option \<Rightarrow> world \<Rightarrow> session \<times> world" where
  "getSession env sessionId w =
     (case sessionId of
        None \<Rightarrow> createSession env None w
      | Some sid \<Rightarrow>
          if sid = [] then createSession env None w
          else (case sessions w sid of
                  None \<Rightarrow> createSession env (Some sid) w
                | Some session \<Rightarrow>
                    (let (now, w1) = new_Date env w;
                         session' = session\<lparr>lastActivity := now\<rparr>
                     in (session', w1\<lparr>sessions := (sessions w1)(sid \<mapsto> session')\<rparr>))))"

text \<open>\<open>Array.prototype.slice(start)\<close> with one argument.\<close>

definition js_slice :: "'a list \<Rightarrow> int \<Rightarrow> 'a list" where
  "js_slice xs start =
     (let n = int (length xs);
          k = (if start < 0 then max (n + start) 0 else min start n)
      in drop (nat k) xs)"

definition addMessage :: "'p env \<Rightarrow> string \<Rightarrow> string \<Rightarrow> jsval \<Rightarrow> world \<Rightarrow> world" where
  "addMessage env sessionId userMessage assistantResponse w =
     (case sessions w sessionId of
        None \<Rightarrow> w
      | Some session \<Rightarrow>
          (let (t1, w1) = new_Date env w;
               h1 = history session @ [\<lparr>role = ''user'', content = JStr userMessage, timestamp = t1\<rparr>];
               (t2, w2) = new_Date env w1;
               h2 = h1 @ [\<lparr>role = ''assistant'', content = assistantResponse, timestamp = t2\<rparr>];
               h3 = (if int (length h2) > maxConversationLength env * 2
                     then js_slice h2 (- maxConversationLength env * 2) else h2);
               (t3, w3) = new_Date env w2
           in w3\<lparr>sessions := (sessions w3)(sessionId \<mapsto> session\<lparr>history := h3, lastActivity := t3\<rparr>)\<rparr>))"

section \<open>services/ragPipeline.js: RAGPipeline\<close>

record outcome =
  message :: jsval
  sessionId :: string
  processingTime :: int
  apiCallsMade :: nat
  phasesExecuted :: "string list option"
  recipeDataFound :: "nat option"
  error :: bool
  errorMessage :: "string option"

text \<open>\<open>String.prototype.includes\<close>.\<close>

fun js_startsWith :: "string \<Rightarrow> string \<Rightarrow> bool" where
  "js_startsWith s [] = True"
| "js_startsWith [] (c # cs) = False"
| "js_startsWith (d # ds) (c # cs) = (d = c \<and> js_startsWith ds cs)"

fun js_includes :: "string \<Rightarrow> string \<Rightarrow> bool" where
  "js_includes [] t = (t = [])"
| "js_includes (d # ds) t = (js_startsWith (d # ds) t \<or> js_includes ds t)"

definition createErrorResponse :: "js_error \<Rightarrow> string" where
  "createErrorResponse err =
     (if js_includes (errMessage err) ''validation'' then
        ''I'' @ [CHR 0x27] @ ''m sorry, but there seems to be an issue with your request. Could you please rephrase it or try asking about a specific dish or ingredient?''
      else if js_includes (errMessage err) ''unavailable'' then
        ''I'' @ [CHR 0x27] @ ''m experiencing some technical difficulties connecting to the recipe database. Please try again in a few moments.''
      else if js_includes (errMessage err) ''timeout'' then
        ''The request is taking longer than expected. Please try asking about something more specific.''
      else
        ''I'' @ [CHR 0x27] @ ''m sorry, I encountered an error while processing your request. Could you please try again or ask about something else?'')"

fun hasFilterResults :: "op_result list \<Rightarrow> js_error + bool" where
  "hasFilterResults [] = Inr False"
| "hasFilterResults (result # mealData) =
     bind_err (case res_meals result of
                 None \<Rightarrow> Inr False
               | Some meals \<Rightarrow> if length meals > 0 then isFilterResult result else Inr False)
       (\<lambda>found. if found then Inr True else hasFilterResults mealData)"

fun countRecipes :: "op_result list \<Rightarrow> nat" where
  "countRecipes [] = 0"
| "countRecipes (result # mealData) =
     (case res_meals result of None \<Rightarrow> 0 | Some meals \<Rightarrow> length meals) + countRecipes mealData"

text \<open>
  The body of the inner \<open>try\<close> of phase 2: the detail data, the number of detail calls and
  \<open>phase2Executed\<close>, or the error that the inner \<open>catch\<close> swallows.
\<close>

definition selectionAttempt ::
    "'p env \<Rightarrow> op_result list \<Rightarrow> string \<Rightarrow> 'p event list \<times> (js_error + (op_result list \<times> nat \<times> bool))" where
  "selectionAttempt env successfulData userMessage =
     (case selectRecipes env successfulData userMessage of
        (ev1, Inl err) \<Rightarrow> (ev1, Inl err)
      | (ev1, Inr selectionResponse) \<Rightarrow>
          (case js_get selectionResponse ''api_calls'' of
             Inl err \<Rightarrow> (ev1, Inl err)
           | Inr api_calls \<Rightarrow>
               (case api_calls of
                  JArr calls \<Rightarrow>
                    if length calls > 0 then
                      (case validateApiCalls (max_api_calls env) api_calls of
                         Inl err \<Rightarrow> (ev1, Inl err)
                       | Inr ok \<Rightarrow>
                           (let ev2 = ev1 @ [Debug (''Phase 2: Executing '' @ show_nat (length calls)
                                                     @ '' detail calls...'')]
                            in (case executeBatch env api_calls of
                                  (ev3, Inl err) \<Rightarrow> (ev2 @ ev3, Inl err)
                                | (ev3, Inr detailData) \<Rightarrow>
                                    (ev2 @ ev3, Inr (detailData, length calls, True)))))
                    else (ev1, Inr ([], 0, False))
                | _ \<Rightarrow> (ev1, Inr ([], 0, False)))))"

text \<open>
  Phase 2 (the statements from \<open>let detailData = []\<close> to the end of the \<open>if\<close>): an error of
  \<open>hasFilterResults\<close> leaves the phase, an error of the selection is swallowed.
\<close>

definition selectionPhase ::
    "'p env \<Rightarrow> op_result list \<Rightarrow> string \<Rightarrow> 'p event list \<times> (js_error + (op_result list \<times> nat \<times> bool))" where
  "selectionPhase env successfulData userMessage =
     (case hasFilterResults successfulData of
        Inl err \<Rightarrow> ([], Inl err)
      | Inr found \<Rightarrow>
          if found \<and> length successfulData > 0 then
            (case selectionAttempt env successfulData userMessage of
               (ev, Inl err) \<Rightarrow>
                 (Debug ''Phase 2: Selecting specific recipes from filter results...'' # ev,
                  Inr ([], 0, False))
             | (ev, Inr r) \<Rightarrow>
                 (Debug ''Phase 2: Selecting specific recipes from filter results...'' # ev, Inr r))
          else ([Debug ''Phase 2: Skipped (no filter results or direct search performed)''],
                Inr ([], 0, False)))"

text \<open>
  The statements of the outer \<open>try\<close> after the retrieval: phase 2, the merge, the synthesis
  and the successful return.
\<close>

definition afterRetrieval ::
    "'p env \<Rightarrow> string \<Rightarrow> session \<Rightarrow> int \<Rightarrow> nat \<Rightarrow> op_result list \<Rightarrow> world
       \<Rightarrow> world \<times> 'p event list \<times> (js_error + outcome)" where
  "afterRetrieval env userMessage session startTime initialCalls initialData w =
     (let successfulData = filter (\<lambda>result. \<not> res_error result) initialData
      in (case selectionPhase env successfulData userMessage of
            (ev2, Inl err) \<Rightarrow> (w, ev2, Inl err)
          | (ev2, Inr (detailData, detailCalls, phase2Executed)) \<Rightarrow>
              (let totalApiCalls = initialCalls + detailCalls;
                   allMealData = successfulData @ detailData;
                   w1 = w\<lparr>sessions :=
                          (case sessions w (session_id session) of
                             None \<Rightarrow> sessions w
                           | Some s \<Rightarrow> (sessions w)(session_id session \<mapsto>
                                         s\<lparr>lastMealData := Some allMealData\<rparr>))\<rparr>;
                   ev3 = ev2 @ [Debug ''Phase 3: Synthesizing final response...'']
               in (case synthesizeResponse env allMealData userMessage (history session) of
                     (ev4, Inl err) \<Rightarrow> (w1, ev3 @ ev4, Inl err)
                   | (ev4, Inr finalResponse) \<Rightarrow>
                       (let w2 = addMessage env (session_id session) userMessage (JStr finalResponse) w1;
                            (now, w3) = new_Date env w2
                        in (w3, ev3 @ ev4,
                            Inr \<lparr>message = JStr finalResponse, sessionId = session_id session,
                                 processingTime = now - startTime, apiCallsMade = totalApiCalls,
                                 phasesExecuted =
                                   Some (if phase2Executed
                                         then [''intent_analysis'', ''recipe_selection'', ''synthesis'']
                                         else [''intent_analysis'', ''synthesis'']),
                                 recipeDataFound = Some (countRecipes allMealData),
                                 error = False, errorMessage = None\<rparr>))))))"

text \<open>The statements of the outer \<open>try\<close> after \<open>getSession\<close>.\<close>

definition processRequest_try ::
    "'p env \<Rightarrow> string \<Rightarrow> session \<Rightarrow> int \<Rightarrow> world \<Rightarrow> world \<times> 'p event list \<times> (js_error + outcome)" where
  "processRequest_try env userMessage session startTime w =
     (case analyzePipeline env userMessage (history session) of
        (ev, Inl err) \<Rightarrow> (w, Debug ''Phase 1: Analyzing user intent...'' # ev, Inl err)
      | (ev, Inr aiResponse) \<Rightarrow>
          (let ev1 = Debug ''Phase 1: Analyzing user intent...'' # ev
           in (case js_get aiResponse ''direct_response'' of
                 Inl err \<Rightarrow> (w, ev1, Inl err)
               | Inr response \<Rightarrow>
                   if js_truthy response then
                     (let w1 = addMessage env (session_id session) userMessage response w;
                          (now, w2) = new_Date env w1
                      in (w2, ev1,
                          Inr \<lparr>message = response, sessionId = session_id session,
                               processingTime = now - startTime, apiCallsMade = 0,
                               phasesExecuted = Some [''direct_response''],
                               recipeDataFound = None, error = False, errorMessage = None\<rparr>))
                   else
                     (case js_get aiResponse ''api_calls'' of
                        Inl err \<Rightarrow> (w, ev1, Inl err)
                      | Inr api_calls \<Rightarrow>
                          (case api_calls of
                             JArr calls \<Rightarrow>
                               (case validateApiCalls (max_api_calls env) api_calls of
                                  Inl err \<Rightarrow> (w, ev1, Inl err)
                                | Inr ok \<Rightarrow>
                                    (let ev2 = ev1 @ [Debug (''Phase 1: Executing ''
                                                 @ show_nat (length calls) @ '' API calls...'')]
                                     in (case executeBatch env api_calls of
                                           (ev3, Inl err) \<Rightarrow> (w, ev2 @ ev3, Inl err)
                                         | (ev3, Inr initialData) \<Rightarrow>
                                             (case afterRetrieval env userMessage session startTime
                                                     (length calls) initialData w of
                                                (w', ev4, r) \<Rightarrow> (w', ev2 @ ev3 @ ev4, r)))))
                           | _ \<Rightarrow>
                               (w, ev1,
                                Inl (Error ''AI service returned invalid response format'')))))))"

text \<open>The \<open>catch\<close> block of \<open>processRequest\<close>.\<close>

definition processRequest_catch ::
    "'p env \<Rightarrow> js_error \<Rightarrow> string \<Rightarrow> session option \<Rightarrow> int \<Rightarrow> world \<Rightarrow> outcome \<times> world" where
  "processRequest_catch env err userMessage session startTime w =
     (let errorResponse = createErrorResponse err;
          w1 = (case session of
                  None \<Rightarrow> w
                | Some s \<Rightarrow> addMessage env (session_id s) userMessage (JStr errorResponse) w);
          (ident, w2) = (case session of
                           None \<Rightarrow> next_uuid env w1
                         | Some s \<Rightarrow> if session_id s \<noteq> [] then (session_id s, w1)
                                      else next_uuid env w1);
          (now, w3) = new_Date env w2
      in (\<lparr>message = JStr errorResponse, sessionId = ident, processingTime = now - startTime,
           apiCallsMade = 0, phasesExecuted = None, recipeDataFound = None, error = True,
           errorMessage = Some (errMessage err)\<rparr>, w3))"

definition processRequest ::
    "'p env \<Rightarrow> string \<Rightarrow> string option \<Rightarrow> world \<Rightarrow> world \<times> 'p event list \<times> (js_error + outcome)" where
  "processRequest env userMessage givenId w =
     (let (startTime, w1) = new_Date env w;
          (session, w2) = getSession env givenId w1
      in (case processRequest_try env userMessage session startTime w2 of
            (w3, ev, Inr result) \<Rightarrow> (w3, ev, Inr result)
          | (w3, ev, Inl err) \<Rightarrow>
              (case processRequest_catch env err userMessage (Some session) startTime w3 of
                 (result, w4) \<Rightarrow> (w4, ev, Inr result))))"

section \<open>The rules of the validator, as the specification words them\<close>

text \<open>
  An Operation of the specification: an object with a textual kind and a mapping from
  parameter names to strings. A parameter is present when its value is a non-empty string.
\<close>

definition well_formed_operation :: "jsval \<Rightarrow> bool" where
  "well_formed_operation op =
     (case op of
        JObj props \<Rightarrow>
          (case map_of props ''endpoint'' of
             Some (JStr e) \<Rightarrow>
               (case map_of props ''params'' of
                  Some (JObj ps) \<Rightarrow> list_all (\<lambda>kv. case snd kv of JStr s \<Rightarrow> True | _ \<Rightarrow> False) ps
                | _ \<Rightarrow> False)
           | _ \<Rightarrow> False)
      | _ \<Rightarrow> False)"

definition op_kind :: "jsval \<Rightarrow> string" where
  "op_kind op =
     (case op of
        JObj props \<Rightarrow> (case map_of props ''endpoint'' of Some (JStr e) \<Rightarrow> e | _ \<Rightarrow> [])
      | _ \<Rightarrow> [])"

definition op_param :: "jsval \<Rightarrow> string \<Rightarrow> string" where
  "op_param op k =
     (case op of
        JObj props \<Rightarrow>
          (case map_of props ''params'' of
             Some (JObj ps) \<Rightarrow> (case map_of ps k of Some (JStr s) \<Rightarrow> s | _ \<Rightarrow> [])
           | _ \<Rightarrow> [])
      | _ \<Rightarrow> [])"

text \<open>
  A purely numeric identifier; a value that is, case-insensitively, in a vocabulary.
\<close>

definition numeric_string :: "string \<Rightarrow> bool" where
  "numeric_string s = (s \<noteq> [] \<and> set s \<subseteq> set ''0123456789'')"

definition in_vocabulary :: "string list \<Rightarrow> string \<Rightarrow> bool" where
  "in_vocabulary vocabulary s = (toLowerCase s \<in> toLowerCase ` set vocabulary)"

text \<open>
  The rules that an operation can violate: its kind is not allowed; it is a filter with
  both or neither of its two parameters; its search text is over 100 characters, or it is
  a filter whose ingredient is over 50 or whose category is over 30 characters; it is a
  lookup whose identifier is not purely numeric.
\<close>

definition violates_kind :: "jsval \<Rightarrow> bool" where
  "violates_kind op = (op_kind op \<notin> {''search.php'', ''filter.php'', ''lookup.php''})"

definition violates_exclusive :: "jsval \<Rightarrow> bool" where
  "violates_exclusive op =
     (op_kind op = ''filter.php'' \<and> ((op_param op ''i'' \<noteq> []) = (op_param op ''c'' \<noteq> [])))"

definition violates_length :: "jsval \<Rightarrow> bool" where
  "violates_length op =
     ((op_kind op = ''search.php'' \<and> length (op_param op ''s'') > 100) \<or>
      (op_kind op = ''filter.php'' \<and>
         (length (op_param op ''i'') > 50 \<or> length (op_param op ''c'') > 30)))"

definition violates_numeric :: "jsval \<Rightarrow> bool" where
  "violates_numeric op = (op_kind op = ''lookup.php'' \<and> \<not> numeric_string (op_param op ''i''))"

text \<open>
  An operation that satisfies the rules: it violates none of the above, a search has a
  text and the category of a filter is in the vocabulary of categories. (That an
  ingredient is one of the common ingredients is not asked for.)
\<close>

definition satisfies_all_rules :: "jsval \<Rightarrow> bool" where
  "satisfies_all_rules op =
     (\<not> violates_kind op \<and> \<not> violates_exclusive op \<and> \<not> violates_length op \<and> \<not> violates_numeric op \<and>
      (op_kind op = ''search.php'' \<longrightarrow> op_param op ''s'' \<noteq> []) \<and>
      (op_kind op = ''filter.php'' \<and> op_param op ''c'' \<noteq> [] \<longrightarrow>
         in_vocabulary MEALDB_CATEGORIES (op_param op ''c'')))"


text \<open>Auxiliary notions of the proofs.\<close>

definition sval :: "jsval \<Rightarrow> string" where
  "sval v = (case v of JStr s \<Rightarrow> s | _ \<Rightarrow> [])"

definition str_or_undef :: "jsval \<Rightarrow> bool" where
  "str_or_undef v = (v = JUndefined \<or> (\<exists>s. v = JStr s))"

definition pget :: "(string \<times> jsval) list \<Rightarrow> string \<Rightarrow> jsval" where
  "pget ps k = (case map_of ps k of Some v \<Rightarrow> v | None \<Rightarrow> JUndefined)"

section \<open>The session history, as the specification words it\<close>

text \<open>The last \<open>n\<close> elements of a list, in their order.\<close>

definition lastN :: "nat \<Rightarrow> 'a list \<Rightarrow> 'a list" where
  "lastN n xs = drop (length xs - n) xs"

text \<open>
  A turn is one user message and one assistant message; the role and content of the
  messages of a session, oldest first.
\<close>

definition turn_contents :: "string \<times> jsval \<Rightarrow> (string \<times> jsval) list" where
  "turn_contents t = [(''user'', JStr (fst t)), (''assistant'', snd t)]"

definition history_contents :: "world \<Rightarrow> string \<Rightarrow> (string \<times> jsval) list" where
  "history_contents w sid =
     (case sessions w sid of None \<Rightarrow> [] | Some s \<Rightarrow> map (\<lambda>m. (role m, content m)) (history s))"

text \<open>The operations of the session store, and runs of them.\<close>

datatype store_op = OpGet "string option" | OpAppend string string jsval

fun apply_op :: "'p env \<Rightarrow> world \<Rightarrow> store_op \<Rightarrow> world" where
  "apply_op env w (OpGet ident) = snd (getSession env ident w)"
| "apply_op env w (OpAppend sid userMessage assistantResponse) =
     addMessage env sid userMessage assistantResponse w"

definition append_turns :: "'p env \<Rightarrow> string \<Rightarrow> (string \<times> jsval) list \<Rightarrow> world \<Rightarrow> world" where
  "append_turns env sid turns w = foldl (\<lambda>w t. addMessage env sid (fst t) (snd t) w) w turns"

definition history_bounded :: "'p env \<Rightarrow> world \<Rightarrow> bool" where
  "history_bounded env w =
     (\<forall>sid s. sessions w sid = Some s \<longrightarrow> int (length (history s)) \<le> 2 * maxConversationLength env)"

text \<open>
  An environment in which the generation backend times out and the data source cannot be
  resolved, with one turn kept per session; and the store before any request.
\<close>

definition example_env :: "nat env" where
  "example_env =
     \<lparr>JSON_parse = (\<lambda>text. None),
      createPhase1Prompt = (\<lambda>userMessage conversationHistory. 1),
      createPhase2Prompt = (\<lambda>userMessage filterResults. Inr 2),
      createSynthesisPrompt = (\<lambda>userMessage mealData conversationHistory. Inr 3),
      invokeModel = (\<lambda>prompt. Inl (Error ''Request timeout'')),
      createFallbackResponse = (\<lambda>mealData userMessage. Inr ''Here are some recipes I found for you''),
      client_get = (\<lambda>endpoint params. Inl (Error ''getaddrinfo ENOTFOUND'')),
      uuidv4 = (\<lambda>n. ''uuid-'' @ show_nat n),
      clock = (\<lambda>n. int n),
      max_api_calls = MAX_API_CALLS None,
      maxConversationLength = 1\<rparr>"

definition empty_world :: world where
  "empty_world = \<lparr>sessions = Map.empty, ticks = 0, uuids = 0\<rparr>"

section \<open>Known sessions\<close>

text \<open>An identifier is known when it is given, not empty, and names a session of the store.\<close>

definition known_session :: "world \<Rightarrow> string option \<Rightarrow> bool" where
  "known_session w ident =
     (case ident of None \<Rightarrow> False | Some sid \<Rightarrow> sid \<noteq> [] \<and> sessions w sid \<noteq> None)"


text \<open>The store holds every session under the identifier of that session.\<close>

definition store_keyed :: "world \<Rightarrow> bool" where
  "store_keyed w = (\<forall>sid s. sessions w sid = Some s \<longrightarrow> session_id s = sid)"

section \<open>The fallback selection, as the specification words it\<close>

text \<open>
  The records of a result set in their original order, and the lookup operation
  synthesized from the identifier of a record.
\<close>

definition all_records :: "op_result list \<Rightarrow> jsval list" where
  "all_records results =
     concat (map (\<lambda>r. case res_meals r of None \<Rightarrow> [] | Some meals \<Rightarrow> meals) results)"

definition is_record :: "jsval \<Rightarrow> bool" where
  "is_record v = (case v of JObj kvs \<Rightarrow> True | _ \<Rightarrow> False)"

definition record_field :: "jsval \<Rightarrow> string \<Rightarrow> jsval" where
  "record_field v k =
     (case v of JObj kvs \<Rightarrow> (case map_of kvs k of Some x \<Rightarrow> x | None \<Rightarrow> JUndefined)
              | _ \<Rightarrow> JUndefined)"

definition lookup_operation :: "jsval \<Rightarrow> jsval" where
  "lookup_operation meal =
     JObj [(''endpoint'', JStr ''lookup.php''), (''params'', JObj [(''i'', record_field meal ''idMeal'')])]"

text \<open>
  A generation step is unusable when the call fails or its text does not decode to an
  object with an array of calls.
\<close>

definition generation_unusable :: "'p env \<Rightarrow> js_error + string \<Rightarrow> bool" where
  "generation_unusable env r =
     (case r of
        Inl e \<Rightarrow> True
      | Inr text \<Rightarrow>
          (case JSON_parse env text of
             None \<Rightarrow> True
           | Some parsed \<Rightarrow>
               (case js_get parsed ''api_calls'' of
                  Inl e \<Rightarrow> True
                | Inr v \<Rightarrow> \<not> isArray v)))"

text \<open>
  An environment for a request about chicken dishes: the interpretation step answers with
  one filter operation, the selection step times out, the synthesis step answers with
  text; the data source returns five summary records for the filter, cannot be resolved
  for the lookup of the second of them, and returns a full record for any other lookup.
\<close>

definition demo_intent_text :: string where
  "demo_intent_text =
     ''{\"api_calls\": [{\"endpoint\": \"filter.php\", \"params\": {\"i\": \"Chicken\"}}]}''"

definition demo_intent :: jsval where
  "demo_intent =
     JObj [(''api_calls'',
            JArr [JObj [(''endpoint'', JStr ''filter.php''), (''params'', JObj [(''i'', JStr ''Chicken'')])]])]"

definition demo_summary :: "string \<Rightarrow> string \<Rightarrow> jsval" where
  "demo_summary ident title = JObj [(''strMeal'', JStr title), (''idMeal'', JStr ident)]"

definition demo_summaries :: "jsval list" where
  "demo_summaries =
     [demo_summary ''52771'' ''Chicken Handi'', demo_summary ''52772'' ''Chicken Congee'',
      demo_summary ''52773'' ''Chicken Karaage'', demo_summary ''52774'' ''Chicken Marengo'',
      demo_summary ''52775'' ''Chicken Parmentier'']"

definition demo_detail :: "jsval \<Rightarrow> jsval" where
  "demo_detail ident =
     JObj [(''idMeal'', ident), (''strMeal'', JStr ''Chicken dish''),
           (''strInstructions'', JStr ''Fry the chicken.'')]"

definition demo_env :: "nat env" where
  "demo_env =
     \<lparr>JSON_parse = (\<lambda>text. if text = demo_intent_text then Some demo_intent
                            else if text = ''null'' then Some JNull else None),
      createPhase1Prompt = (\<lambda>userMessage conversationHistory. 1),
      createPhase2Prompt = (\<lambda>userMessage filterResults. Inr 2),
      createSynthesisPrompt = (\<lambda>userMessage mealData conversationHistory. Inr 3),
      invokeModel = (\<lambda>prompt. if prompt = 1 then Inr demo_intent_text
                               else if prompt = 2 then Inl (Error ''Request timeout'')
                               else Inr ''Here are three chicken dishes.''),
      createFallbackResponse = (\<lambda>mealData userMessage. Inr ''Here are some recipes I found for you''),
      client_get = (\<lambda>endpoint params.
         if endpoint = JStr ''filter.php'' then Inr (JObj [(''meals'', JArr demo_summaries)])
         else if params = JObj [(''i'', JStr ''52772'')] then
           Inl \<lparr>errName = ''Error'', errMessage = ''getaddrinfo ENOTFOUND www.themealdb.com'',
                errCode = Some ''ENOTFOUND'', errResponse = None\<rparr>
         else (case js_get params ''i'' of
                 Inr ident \<Rightarrow> Inr (JObj [(''meals'', JArr [demo_detail ident])])
               | Inl e \<Rightarrow> Inr (JObj [(''meals'', JNull)]))),
      uuidv4 = (\<lambda>n. ''uuid-'' @ show_nat n),
      clock = (\<lambda>n. int n),
      max_api_calls = MAX_API_CALLS None,
      maxConversationLength = SessionManager_maxConversationLength None\<rparr>"

section \<open>Upstream failures of a batch\<close>

text \<open>An operation fails upstream when the request for it to the data source fails.\<close>

definition upstream_fails :: "'p env \<Rightarrow> jsval \<Rightarrow> bool" where
  "upstream_fails env call =
     (case client_get env (record_field call ''endpoint'') (record_field call ''params'') of
        Inl e \<Rightarrow> True | Inr data \<Rightarrow> False)"

text \<open>The result that the proofs expect for one operation.\<close>

definition batch_result :: "'p env \<Rightarrow> jsval \<Rightarrow> op_result" where
  "batch_result env call =
     (case client_get env (record_field call ''endpoint'') (record_field call ''params'') of
        Inl e \<Rightarrow>
          \<lparr>res_error = True, res_message = Some (determineErrorMessage e),
           res_endpoint = record_field call ''endpoint'', res_params = record_field call ''params'',
           res_meals = None, res_count = None, res_isEmpty = False, res_rawData = JUndefined\<rparr>
      | Inr data \<Rightarrow>
          (case processResponse data (record_field call ''endpoint'') of
             Inr r \<Rightarrow> r
           | Inl e \<Rightarrow> createEmptyResponse []))"

section \<open>The apology of an error outcome\<close>

text \<open>
  The apology that the specification describes: chosen by whether the descriptive text of
  the error contains the word for a validation problem, for an unavailable service or for
  a timeout, in this order.
\<close>

definition apology_for :: "string \<Rightarrow> string" where
  "apology_for description =
     (if sublist ''validation'' description then
        ''I'' @ [CHR 0x27] @ ''m sorry, but there seems to be an issue with your request. Could you please rephrase it or try asking about a specific dish or ingredient?''
      else if sublist ''unavailable'' description then
        ''I'' @ [CHR 0x27] @ ''m experiencing some technical difficulties connecting to the recipe database. Please try again in a few moments.''
      else if sublist ''timeout'' description then
        ''The request is taking longer than expected. Please try asking about something more specific.''
      else
        ''I'' @ [CHR 0x27] @ ''m sorry, I encountered an error while processing your request. Could you please try again or ask about something else?'')"

section \<open>A generation backend that answers null\<close>

text \<open>The example environment with a generation backend whose text is \<open>null\<close>.\<close>

definition null_env :: "nat env" where
  "null_env = demo_env\<lparr>invokeModel := (\<lambda>prompt. Inr ''null'')\<rparr>"

section \<open>Filter-style results and phase 2\<close>

text \<open>The successful results of a batch: those without failure marker.\<close>

definition successes :: "op_result list \<Rightarrow> op_result list" where
  "successes results = filter (\<lambda>r. \<not> res_error r) results"

text \<open>
  A record carries a field when the field is one of its keys. A result is lookup-style
  when its first record carries the detail-only field \<open>strInstructions\<close>; it is
  filter-style when it has records and its first record lacks that field.
\<close>

definition has_field :: "jsval \<Rightarrow> string \<Rightarrow> bool" where
  "has_field v k = (case v of JObj kvs \<Rightarrow> map_of kvs k \<noteq> None | _ \<Rightarrow> False)"

definition lookup_style :: "op_result \<Rightarrow> bool" where
  "lookup_style r =
     (case res_meals r of
        Some (first # rest) \<Rightarrow> has_field first ''strInstructions''
      | _ \<Rightarrow> False)"

definition filter_style :: "op_result \<Rightarrow> bool" where
  "filter_style r =
     (case res_meals r of
        Some (first # rest) \<Rightarrow> \<not> has_field first ''strInstructions''
      | _ \<Rightarrow> False)"

text \<open>
  The first record of the result either lacks the instructions or carries them as a
  non-empty value (neither \<open>null\<close> nor the empty text).
\<close>

definition instructions_nonempty :: "op_result \<Rightarrow> bool" where
  "instructions_nonempty r =
     (case res_meals r of
        Some (first # rest) \<Rightarrow>
          \<not> has_field first ''strInstructions'' \<or> js_truthy (record_field first ''strInstructions'')
      | _ \<Rightarrow> True)"

text \<open>
  The batch of phase 2: the operations that the selection step yields when they are a
  non-empty batch that the validator accepts, and no operation otherwise; the events of
  its execution, and its results.
\<close>

definition selected_batch :: "'p env \<Rightarrow> op_result list \<Rightarrow> string \<Rightarrow> jsval list" where
  "selected_batch env results userMessage =
     (case snd (selectRecipes env results userMessage) of
        Inl e \<Rightarrow> []
      | Inr selection \<Rightarrow>
          (case js_get selection ''api_calls'' of
             Inr (JArr calls) \<Rightarrow>
               (case validateApiCalls (max_api_calls env) (JArr calls) of
                  Inr ok \<Rightarrow> calls
                | Inl e \<Rightarrow> [])
           | _ \<Rightarrow> []))"

definition detail_events :: "'p env \<Rightarrow> jsval list \<Rightarrow> 'p event list" where
  "detail_events env batch =
     (if batch = [] then []
      else Debug (''Phase 2: Executing '' @ show_nat (length batch) @ '' detail calls...'')
             # fst (executeBatch env (JArr batch)))"

definition detail_results :: "'p env \<Rightarrow> jsval list \<Rightarrow> op_result list" where
  "detail_results env batch =
     (case snd (executeBatch env (JArr batch)) of Inr detail \<Rightarrow> detail | Inl e \<Rightarrow> [])"

text \<open>An event is a request when it is a call of the data source.\<close>

definition is_request :: "'p event \<Rightarrow> bool" where
  "is_request ev = (case ev of Get endpoint params \<Rightarrow> True | _ \<Rightarrow> False)"

text \<open>The two messages that \<open>processRequest\<close> logs when it enters or skips phase 2.\<close>

definition refinement_entered :: "'p event" where
  "refinement_entered = Debug ''Phase 2: Selecting specific recipes from filter results...''"

definition refinement_skipped :: "'p event" where
  "refinement_skipped = Debug ''Phase 2: Skipped (no filter results or direct search performed)''"

text \<open>
  The batch of the example request, the lookup of a record, and the example environment
  with a data source that answers the filter with one given record: a full record whose
  instructions are the empty text, or a summary record that has no identifier.
\<close>

definition demo_calls :: jsval where
  "demo_calls =
     JArr [JObj [(''endpoint'', JStr ''filter.php''), (''params'', JObj [(''i'', JStr ''Chicken'')])]]"

definition demo_lookup :: "string \<Rightarrow> jsval" where
  "demo_lookup ident = JObj [(''endpoint'', JStr ''lookup.php''), (''params'', JObj [(''i'', JStr ident)])]"

definition payload_env :: "jsval \<Rightarrow> nat env" where
  "payload_env record =
     demo_env\<lparr>client_get := (\<lambda>endpoint params.
        if endpoint = JStr ''filter.php'' then Inr (JObj [(''meals'', JArr [record])])
        else client_get demo_env endpoint params)\<rparr>"

definition blank_instructions_record :: jsval where
  "blank_instructions_record =
     JObj [(''idMeal'', JStr ''52771''), (''strMeal'', JStr ''Chicken Handi''),
           (''strInstructions'', JStr [])]"

definition unidentified_record :: jsval where
  "unidentified_record = JObj [(''strMeal'', JStr ''Chicken Handi'')]"

section \<open>A data source that returns null for a record\<close>


section \<open>Typed validation failures\<close>

text \<open>A typed validation failure: a \<open>ValidationError\<close> with a message and a code.\<close>

definition validation_failure :: "js_error + 'a \<Rightarrow> bool" where
  "validation_failure r = (\<exists>msg code. r = Inl (ValidationError msg (Some code)))"

section \<open>Facts about JavaScript values\<close>

lemma numeric_string_iff: "numeric_string s = matches_digits s"
  unfolding numeric_string_def matches_digits_def list_all_iff subset_eq is_digit_def [abs_def]
  by (rule refl)

lemma str_or_undef_truthy: "str_or_undef v \<Longrightarrow> js_truthy v = (sval v \<noteq> [])"
  by (auto simp: str_or_undef_def sval_def)


lemma show_nat_nonempty: "show_nat n \<noteq> []"
  by (subst show_nat.simps) simp

lemma digit_char_zero: "n < 10 \<Longrightarrow> (digit_char n = CHR ''0'') = (n = 0)"
  unfolding digit_char_def
  by (auto simp: eval_nat_numeral less_Suc_eq)

lemma show_nat_small: "n < 10 \<Longrightarrow> show_nat n = [digit_char n]"
  by (subst show_nat.simps) simp

lemma show_nat_large: "\<not> n < 10 \<Longrightarrow> show_nat n = show_nat (n div 10) @ [digit_char (n mod 10)]"
  by (subst show_nat.simps) simp

lemma show_nat_zero [simp]: "(show_nat n = ''0'') = (n = 0)"
proof (cases "n < 10")
  case True
  then show ?thesis by (simp add: show_nat_small digit_char_zero)
next
  case False
  then have "n \<noteq> 0" by simp
  moreover have "show_nat n \<noteq> ''0''"
    using show_nat_nonempty [of "n div 10"] by (simp add: show_nat_large [OF False])
  ultimately show ?thesis by simp
qed

section \<open>The validator\<close>

lemma validateParam_s:
  "(validateParam ''s'' (JStr s) = Inr ()) = (s \<noteq> [] \<and> length s \<le> 100)"
  by (simp add: validateParam_def PARAM_RULES_def validateParamBasics_def validateParamEnum_def
      bind_err_def)

lemma validateParam_i:
  "(validateParam ''i'' (JStr s) = Inr ()) = (s \<noteq> [] \<and> length s \<le> 50)"
  by (simp add: validateParam_def PARAM_RULES_def validateParamBasics_def validateParamEnum_def
      bind_err_def)

lemma validateParam_c:
  "(validateParam ''c'' (JStr s) = Inr ()) =
     (s \<noteq> [] \<and> length s \<le> 30 \<and> in_vocabulary MEALDB_CATEGORIES s)"
  by (simp add: validateParam_def PARAM_RULES_def validateParamBasics_def validateParamEnum_def
      bind_err_def in_vocabulary_def)



lemma bind_err_simps [simp]:
  "bind_err (Inr x) f = f x" "bind_err (Inl e) f = Inl e"
  by (simp_all add: bind_err_def)

lemma bind_err_Inr_iff: "(bind_err m f = Inr y) = (\<exists>x. m = Inr x \<and> f x = Inr y)"
  by (cases m) simp_all

lemma validateSearchParams_iff:
  assumes "str_or_undef (case map_of ps ''s'' of Some v \<Rightarrow> v | None \<Rightarrow> JUndefined)"
  shows "(validateSearchParams (JObj ps) = Inr ()) =
     (let s = sval (case map_of ps ''s'' of Some v \<Rightarrow> v | None \<Rightarrow> JUndefined)
      in s \<noteq> [] \<and> length s \<le> 100)"
  using assms
  by (auto simp: validateSearchParams_def str_or_undef_def sval_def validateParam_s)

lemma validateLookupParams_iff:
  assumes "str_or_undef (case map_of ps ''i'' of Some v \<Rightarrow> v | None \<Rightarrow> JUndefined)"
  shows "(validateLookupParams (JObj ps) = Inr ()) =
     numeric_string (sval (case map_of ps ''i'' of Some v \<Rightarrow> v | None \<Rightarrow> JUndefined))"
  using assms
  by (auto simp: validateLookupParams_def str_or_undef_def sval_def numeric_string_iff
      matches_digits_def)

lemma validateFilterParams_iff:
  assumes "str_or_undef (case map_of ps ''i'' of Some v \<Rightarrow> v | None \<Rightarrow> JUndefined)"
    and "str_or_undef (case map_of ps ''c'' of Some v \<Rightarrow> v | None \<Rightarrow> JUndefined)"
  shows "(validateFilterParams (JObj ps) = Inr ()) =
     (let i = sval (case map_of ps ''i'' of Some v \<Rightarrow> v | None \<Rightarrow> JUndefined);
          c = sval (case map_of ps ''c'' of Some v \<Rightarrow> v | None \<Rightarrow> JUndefined)
      in ((i \<noteq> []) \<noteq> (c \<noteq> [])) \<and> (i \<noteq> [] \<longrightarrow> length i \<le> 50) \<and>
         (c \<noteq> [] \<longrightarrow> length c \<le> 30 \<and> in_vocabulary MEALDB_CATEGORIES c))"
  using assms
  by (auto simp: validateFilterParams_def validateFilterParamPresence_def
      validateFilterParamValues_def str_or_undef_def sval_def bind_err_Inr_iff
      validateParam_i validateParam_c)


lemma wf_shape:
  assumes "well_formed_operation op"
  shows "\<exists>props e ps. op = JObj props \<and> map_of props ''endpoint'' = Some (JStr e) \<and>
    map_of props ''params'' = Some (JObj ps) \<and> (\<forall>k. str_or_undef (pget ps k))"
proof -
  from assms obtain props where 1: "op = JObj props"
    by (auto simp: well_formed_operation_def split: jsval.splits)
  from assms 1 obtain e where 2: "map_of props ''endpoint'' = Some (JStr e)"
    by (auto simp: well_formed_operation_def split: jsval.splits option.splits)
  from assms 1 2 obtain ps where 3: "map_of props ''params'' = Some (JObj ps)"
    and 4: "list_all (\<lambda>kv. case snd kv of JStr s \<Rightarrow> True | _ \<Rightarrow> False) ps"
    by (auto simp: well_formed_operation_def split: jsval.splits option.splits)
  have "str_or_undef (pget ps k)" for k
  proof (cases "map_of ps k")
    case None then show ?thesis by (simp add: pget_def str_or_undef_def)
  next
    case (Some v)
    then have "(k, v) \<in> set ps" by (rule map_of_SomeD)
    with 4 have "case v of JStr s \<Rightarrow> True | _ \<Rightarrow> False"
      unfolding list_all_iff by force
    then show ?thesis using Some by (cases v) (simp_all add: pget_def str_or_undef_def)
  qed
  with 1 2 3 show ?thesis by blast
qed


lemma validateApiCall_wf:
  assumes "op = JObj props" "map_of props ''endpoint'' = Some (JStr e)"
    "map_of props ''params'' = Some (JObj ps)"
  shows "(validateApiCall op = Inr True) =
     ((e = ''search.php'' \<and> validateSearchParams (JObj ps) = Inr ()) \<or>
      (e = ''filter.php'' \<and> validateFilterParams (JObj ps) = Inr ()) \<or>
      (e = ''lookup.php'' \<and> validateLookupParams (JObj ps) = Inr ()))"
  using assms
  by (auto simp: validateApiCall_def validateApiCallStructure_def validateEndpoint_def
      validateParams_def ALLOWED_ENDPOINTS_def validateEndpointSpecificParams_def bind_err_Inr_iff)

lemma validateApiCall_operation:
  assumes "well_formed_operation op"
  shows "(validateApiCall op = Inr True) =
     ((op_kind op = ''search.php'' \<and> op_param op ''s'' \<noteq> [] \<and> length (op_param op ''s'') \<le> 100) \<or>
      (op_kind op = ''filter.php'' \<and>
         ((op_param op ''i'' \<noteq> []) \<noteq> (op_param op ''c'' \<noteq> [])) \<and>
         (op_param op ''i'' \<noteq> [] \<longrightarrow> length (op_param op ''i'') \<le> 50) \<and>
         (op_param op ''c'' \<noteq> [] \<longrightarrow> length (op_param op ''c'') \<le> 30 \<and>
            in_vocabulary MEALDB_CATEGORIES (op_param op ''c''))) \<or>
      (op_kind op = ''lookup.php'' \<and> numeric_string (op_param op ''i'')))"
proof -
  from wf_shape [OF assms] obtain props e ps where
    s: "op = JObj props" "map_of props ''endpoint'' = Some (JStr e)"
       "map_of props ''params'' = Some (JObj ps)" and su: "\<And>k. str_or_undef (pget ps k)"
    by blast
  have k: "op_kind op = e" using s by (simp add: op_kind_def)
  have p: "op_param op k = sval (pget ps k)" for k
    using s su [of k] by (auto simp: op_param_def pget_def sval_def str_or_undef_def split: option.splits)
  show ?thesis
    unfolding validateApiCall_wf [OF s] k p
    using validateSearchParams_iff [of ps] validateFilterParams_iff [of ps]
      validateLookupParams_iff [of ps] su [of "''s''"] su [of "''i''"] su [of "''c''"]
    by (simp add: pget_def Let_def)
qed

lemma validateApiCall_accepts:
  assumes "well_formed_operation op" "satisfies_all_rules op"
  shows "validateApiCall op = Inr True"
proof -
  from assms(2) consider "op_kind op = ''search.php''" | "op_kind op = ''filter.php''"
    | "op_kind op = ''lookup.php''"
    unfolding satisfies_all_rules_def violates_kind_def by blast
  then show ?thesis
  proof cases
    case 1
    with assms(2) show ?thesis
      unfolding validateApiCall_operation [OF assms(1)]
      by (simp add: satisfies_all_rules_def violates_length_def)
  next
    case 2
    with assms(2) show ?thesis
      unfolding validateApiCall_operation [OF assms(1)]
      by (simp add: satisfies_all_rules_def violates_length_def violates_exclusive_def)
  next
    case 3
    with assms(2) show ?thesis
      unfolding validateApiCall_operation [OF assms(1)]
      by (simp add: satisfies_all_rules_def violates_numeric_def)
  qed
qed

lemma validateApiCall_rejects:
  assumes "well_formed_operation op"
    "violates_kind op \<or> violates_exclusive op \<or> violates_length op \<or> violates_numeric op"
  shows "validateApiCall op \<noteq> Inr True"
proof -
  from assms(2) consider "violates_kind op" | "violates_exclusive op" | "violates_length op"
    | "violates_numeric op" by blast
  then show ?thesis
  proof cases
    case 1
    then show ?thesis
      unfolding validateApiCall_operation [OF assms(1)] by (simp add: violates_kind_def)
  next
    case 2
    then show ?thesis
      unfolding validateApiCall_operation [OF assms(1)] by (simp add: violates_exclusive_def)
  next
    case 3
    then consider (s) "op_kind op = ''search.php''" "length (op_param op ''s'') > 100"
      | (i) "op_kind op = ''filter.php''" "length (op_param op ''i'') > 50"
      | (c) "op_kind op = ''filter.php''" "length (op_param op ''c'') > 30"
      unfolding violates_length_def by blast
    then show ?thesis
    proof cases
      case s
      then show ?thesis unfolding validateApiCall_operation [OF assms(1)] by simp
    next
      case i
      moreover from i have "op_param op ''i'' \<noteq> []" by auto
      ultimately show ?thesis unfolding validateApiCall_operation [OF assms(1)] by simp
    next
      case c
      moreover from c have "op_param op ''c'' \<noteq> []" by auto
      ultimately show ?thesis unfolding validateApiCall_operation [OF assms(1)] by simp
    qed
  next
    case 4
    then show ?thesis
      unfolding validateApiCall_operation [OF assms(1)] by (simp add: violates_numeric_def)
  qed
qed

lemma validateApiCall_Inr: "validateApiCall op = Inr b \<Longrightarrow> b"
  by (auto simp: validateApiCall_def bind_err_Inr_iff)

lemma ValidationError_code: "\<exists>code. ValidationError msg c = ValidationError msg (Some code)"
  by (cases c) (auto simp: ValidationError_def)

lemma forEach_accepts:
  "\<forall>op \<in> set xs. validateApiCall op = Inr True \<Longrightarrow> validateApiCalls_forEach i xs = Inr ()"
  by (induction xs arbitrary: i) simp_all

lemma forEach_rejects:
  "\<exists>op \<in> set xs. validateApiCall op \<noteq> Inr True \<Longrightarrow>
   \<exists>msg code. validateApiCalls_forEach i xs = Inl (ValidationError msg (Some code))"
proof (induction xs arbitrary: i)
  case Nil
  then show ?case by simp
next
  case (Cons x xs)
  show ?case
  proof (cases "validateApiCall x")
    case (Inl e)
    then show ?thesis using ValidationError_code by (simp; blast)
  next
    case (Inr b)
    then have "validateApiCall x = Inr True" using validateApiCall_Inr [of x b] by simp
    with Cons show ?thesis by simp
  qed
qed

text \<open>
  Claim C3. For a batch of Operations, the validator rejects with a \<open>ValidationError\<close>
  that carries a message and a reason code every batch that is empty, that is larger than
  the configured maximum, or that holds an operation of a disallowed kind, a filter with
  both or neither of its two parameters, a search text or filter value over its length
  bound, or a lookup whose identifier is not purely numeric; and it accepts (returns
  \<open>true\<close>, the batch itself being left as it is) every batch that satisfies all the rules
  of the specification. The maximum is 5 when none is configured.
\<close>

theorem validateApiCalls_rules:
  assumes "\<forall>op \<in> set batch. well_formed_operation op"
  shows "(batch = [] \<or> int (length batch) > maxCalls \<or>
          (\<exists>op \<in> set batch. violates_kind op \<or> violates_exclusive op \<or>
                               violates_length op \<or> violates_numeric op)
          \<longrightarrow> (\<exists>msg code. validateApiCalls maxCalls (JArr batch)
                              = Inl (ValidationError msg (Some code)))) \<and>
         (batch \<noteq> [] \<and> int (length batch) \<le> maxCalls \<and>
          (\<forall>op \<in> set batch. satisfies_all_rules op)
          \<longrightarrow> validateApiCalls maxCalls (JArr batch) = Inr True) \<and>
         MAX_API_CALLS None = 5"
proof (intro conjI impI)
  assume v: "batch = [] \<or> int (length batch) > maxCalls \<or>
          (\<exists>op \<in> set batch. violates_kind op \<or> violates_exclusive op \<or>
                               violates_length op \<or> violates_numeric op)"
  show "\<exists>msg code. validateApiCalls maxCalls (JArr batch) = Inl (ValidationError msg (Some code))"
  proof (cases "batch = [] \<or> int (length batch) > maxCalls")
    case True
    then show ?thesis by (auto simp: validateApiCalls_def)
  next
    case False
    with v obtain op where "op \<in> set batch" "violates_kind op \<or> violates_exclusive op \<or>
                               violates_length op \<or> violates_numeric op" by blast
    with assms have "\<exists>op \<in> set batch. validateApiCall op \<noteq> Inr True"
      using validateApiCall_rejects by blast
    from forEach_rejects [OF this, of 0] obtain msg code where
      "validateApiCalls_forEach 0 batch = Inl (ValidationError msg (Some code))" by blast
    with False have "validateApiCalls maxCalls (JArr batch) = Inl (ValidationError msg (Some code))"
      by (simp add: validateApiCalls_def)
    then show ?thesis by blast
  qed
next
  assume a: "batch \<noteq> [] \<and> int (length batch) \<le> maxCalls \<and>
          (\<forall>op \<in> set batch. satisfies_all_rules op)"
  with assms have "\<forall>op \<in> set batch. validateApiCall op = Inr True"
    using validateApiCall_accepts by blast
  from forEach_accepts [OF this, of 0] a show "validateApiCalls maxCalls (JArr batch) = Inr True"
    by (simp add: validateApiCalls_def)
next
  show "MAX_API_CALLS None = 5" by (simp add: MAX_API_CALLS_def)
qed


text \<open>
  The theorem at a batch of a category filter and a lookup, which is accepted, and at a
  lookup whose identifier holds a letter, which is rejected.
\<close>

theorem validateApiCalls_rules_witness:
  "well_formed_operation (JObj [(''endpoint'', JStr ''filter.php''), (''params'', JObj [(''c'', JStr ''Vegetarian'')])]) \<and>
   satisfies_all_rules (JObj [(''endpoint'', JStr ''filter.php''), (''params'', JObj [(''c'', JStr ''Vegetarian'')])]) \<and>
   well_formed_operation (JObj [(''endpoint'', JStr ''lookup.php''), (''params'', JObj [(''i'', JStr ''52772'')])]) \<and>
   satisfies_all_rules (JObj [(''endpoint'', JStr ''lookup.php''), (''params'', JObj [(''i'', JStr ''52772'')])]) \<and>
   validateApiCalls 5
     (JArr [JObj [(''endpoint'', JStr ''filter.php''), (''params'', JObj [(''c'', JStr ''Vegetarian'')])],
            JObj [(''endpoint'', JStr ''lookup.php''), (''params'', JObj [(''i'', JStr ''52772'')])]])
     = Inr True \<and>
   well_formed_operation (JObj [(''endpoint'', JStr ''lookup.php''), (''params'', JObj [(''i'', JStr ''52a'')])]) \<and>
   violates_numeric (JObj [(''endpoint'', JStr ''lookup.php''), (''params'', JObj [(''i'', JStr ''52a'')])]) \<and>
   (\<exists>msg code. validateApiCalls 5
      (JArr [JObj [(''endpoint'', JStr ''lookup.php''), (''params'', JObj [(''i'', JStr ''52a'')])]])
      = Inl (ValidationError msg (Some code)))"
proof -
  let ?filter = "JObj [(''endpoint'', JStr ''filter.php''), (''params'', JObj [(''c'', JStr ''Vegetarian'')])]"
  let ?lookup = "JObj [(''endpoint'', JStr ''lookup.php''), (''params'', JObj [(''i'', JStr ''52772'')])]"
  let ?bad = "JObj [(''endpoint'', JStr ''lookup.php''), (''params'', JObj [(''i'', JStr ''52a'')])]"
  have wf: "well_formed_operation ?filter" "well_formed_operation ?lookup" "well_formed_operation ?bad"
    by (simp_all add: well_formed_operation_def)
  have ok: "satisfies_all_rules ?filter" "satisfies_all_rules ?lookup"
    by code_simp+
  have bad: "violates_numeric ?bad"
    by code_simp
  have "\<forall>op \<in> set [?filter, ?lookup]. well_formed_operation op" using wf by simp
  from validateApiCalls_rules [OF this, of 5] ok
  have good: "validateApiCalls 5 (JArr [?filter, ?lookup]) = Inr True" by simp
  have "\<forall>op \<in> set [?bad]. well_formed_operation op" using wf by simp
  from validateApiCalls_rules [OF this, of 5] bad
  have "\<exists>msg code. validateApiCalls 5 (JArr [?bad]) = Inl (ValidationError msg (Some code))"
    by simp
  with wf ok bad good show ?thesis by simp
qed

section \<open>The bounded history of a session\<close>

lemma js_slice_negative: "0 < k \<Longrightarrow> js_slice xs (- k) = lastN (nat k) xs"
  by (simp add: js_slice_def lastN_def Let_def max_def nat_diff_distrib')

lemma lastN_all: "length xs \<le> n \<Longrightarrow> lastN n xs = xs"
  by (simp add: lastN_def)

lemma length_lastN: "length (lastN n xs) = min n (length xs)"
  by (simp add: lastN_def)

lemma lastN_lastN_append: "lastN n (lastN n xs @ ys) = lastN n (xs @ ys)"
  by (cases "length xs \<le> n") (simp_all add: lastN_def add.commute)

lemma map_lastN: "map f (lastN n xs) = lastN n (map f xs)"
  by (simp add: lastN_def drop_map)

lemma sessions_addMessage_other:
  "sid' \<noteq> sid \<Longrightarrow> sessions (addMessage env sid u a w) sid' = sessions w sid'"
  by (simp add: addMessage_def new_Date_def Let_def split: option.splits prod.splits)

lemma sessions_addMessage_same:
  assumes "sessions w sid = Some s" "0 < maxConversationLength env"
  shows "\<exists>s'. sessions (addMessage env sid u a w) sid = Some s' \<and>
     map (\<lambda>m. (role m, content m)) (history s') =
       lastN (nat (2 * maxConversationLength env))
         (map (\<lambda>m. (role m, content m)) (history s) @ turn_contents (u, a)) \<and>
     session_id s' = session_id s"
proof -
  let ?m = "maxConversationLength env"
  have pos: "0 < ?m * 2" using assms(2) by simp
  have two: "nat (2 * ?m) = nat (?m * 2)" by (simp add: mult.commute)
  show ?thesis
    using assms(1)
    by (auto simp: addMessage_def new_Date_def Let_def turn_contents_def two
        js_slice_negative [OF pos] map_lastN lastN_all)
qed

lemma sessions_addMessage_missing:
  "sessions w sid = None \<Longrightarrow> addMessage env sid u a w = w"
  by (simp add: addMessage_def)

lemma history_contents_addMessage:
  assumes "sessions w sid = Some s" "0 < maxConversationLength env"
  shows "history_contents (addMessage env sid u a w) sid =
     lastN (nat (2 * maxConversationLength env)) (history_contents w sid @ turn_contents (u, a))"
  using sessions_addMessage_same [OF assms, of u a] assms(1)
  by (auto simp: history_contents_def)

lemma session_exists_addMessage:
  "(sessions (addMessage env sid u a w) sid' = None) = (sessions w sid' = None)"
  by (simp add: addMessage_def new_Date_def Let_def split: option.splits prod.splits)

lemma history_contents_append_turns:
  assumes "0 < maxConversationLength env"
  shows "sessions w sid \<noteq> None \<Longrightarrow>
     length (history_contents w sid) \<le> nat (2 * maxConversationLength env) \<Longrightarrow>
     history_contents (append_turns env sid turns w) sid =
       lastN (nat (2 * maxConversationLength env))
         (history_contents w sid @ concat (map turn_contents turns))"
proof (induction turns arbitrary: w)
  case Nil
  then show ?case by (simp add: append_turns_def lastN_all)
next
  case (Cons t turns)
  let ?w = "addMessage env sid (fst t) (snd t) w"
  from Cons.prems obtain s where s: "sessions w sid = Some s" by blast
  have h: "history_contents ?w sid =
     lastN (nat (2 * maxConversationLength env)) (history_contents w sid @ turn_contents t)"
    using history_contents_addMessage [OF s assms, of "fst t" "snd t"] by simp
  have e: "sessions ?w sid \<noteq> None" using s by (simp add: session_exists_addMessage)
  have l: "length (history_contents ?w sid) \<le> nat (2 * maxConversationLength env)"
    by (simp add: h length_lastN)
  have "history_contents (append_turns env sid (t # turns) w) sid =
        history_contents (append_turns env sid turns ?w) sid"
    by (simp add: append_turns_def)
  also have "\<dots> = lastN (nat (2 * maxConversationLength env))
         (history_contents ?w sid @ concat (map turn_contents turns))"
    by (rule Cons.IH [OF e l])
  also have "\<dots> = lastN (nat (2 * maxConversationLength env))
         (history_contents w sid @ concat (map turn_contents (t # turns)))"
    by (simp add: h lastN_lastN_append)
  finally show ?case .
qed

lemma drop_concat_turns:
  "drop (2 * k) (concat (map turn_contents turns)) = concat (map turn_contents (drop k turns))"
proof (induction turns arbitrary: k)
  case Nil
  then show ?case by simp
next
  case (Cons t turns)
  then show ?case by (cases k) (simp_all add: turn_contents_def)
qed

lemma length_concat_turns: "length (concat (map turn_contents turns)) = 2 * length turns"
  by (induction turns) (simp_all add: turn_contents_def)

lemma lastN_concat_turns:
  "lastN (2 * m) (concat (map turn_contents turns)) = concat (map turn_contents (lastN m turns))"
  by (simp add: lastN_def length_concat_turns drop_concat_turns [symmetric] diff_mult_distrib2)

lemma history_bounded_addMessage:
  assumes "0 < maxConversationLength env" "history_bounded env w"
  shows "history_bounded env (addMessage env sid u a w)"
  unfolding history_bounded_def
proof (intro allI impI)
  fix sid' s'
  assume a: "sessions (addMessage env sid u a w) sid' = Some s'"
  show "int (length (history s')) \<le> 2 * maxConversationLength env"
  proof (cases "sid' = sid")
    case False
    with a assms(2) show ?thesis
      by (simp add: sessions_addMessage_other history_bounded_def)
  next
    case True
    with a obtain s where s: "sessions w sid = Some s"
      using session_exists_addMessage [of env sid u a w sid] by (cases "sessions w sid") auto
    from sessions_addMessage_same [OF s assms(1), of u a] a True
    have "map (\<lambda>m. (role m, content m)) (history s') =
       lastN (nat (2 * maxConversationLength env))
         (map (\<lambda>m. (role m, content m)) (history s) @ turn_contents (u, a))" by auto
    then have "length (map (\<lambda>m. (role m, content m)) (history s')) \<le> nat (2 * maxConversationLength env)"
      by (simp add: length_lastN)
    then show ?thesis using assms(1) by simp
  qed
qed

lemma history_bounded_getSession:
  assumes "0 < maxConversationLength env" "history_bounded env w"
  shows "history_bounded env (snd (getSession env ident w))"
  using assms
  by (auto simp: history_bounded_def getSession_def createSession_def new_Date_def next_uuid_def
      Let_def split: option.splits if_splits prod.splits)

lemma history_bounded_ops:
  assumes "0 < maxConversationLength env"
  shows "history_bounded env w \<Longrightarrow> history_bounded env (foldl (apply_op env) w ops)"
proof (induction ops arbitrary: w)
  case Nil
  then show ?case by simp
next
  case (Cons op ops)
  have "history_bounded env (apply_op env w op)"
    using Cons.prems assms
    by (cases op) (simp_all add: history_bounded_addMessage history_bounded_getSession)
  then show ?case using Cons.IH by simp
qed

text \<open>
  Claim C5. With a positive \<open>maxConversationLength\<close> (it is 10 when none is configured),
  no run of store operations, on whichever sessions, makes a history longer than twice
  that bound; and after appending turns to a session its history is the last
  \<open>2 * maxConversationLength\<close> messages of the old history followed by the appended turns, in
  their order: for a session that started empty, exactly the most recent
  \<open>maxConversationLength\<close> turns.
\<close>

theorem addMessage_history_window:
  assumes "0 < maxConversationLength env" and "history_bounded env w"
    and "sessions w sid = Some s"
  shows "history_bounded env (foldl (apply_op env) w ops) \<and>
    history_contents (append_turns env sid turns w) sid =
      lastN (2 * nat (maxConversationLength env))
        (history_contents w sid @ concat (map turn_contents turns)) \<and>
    length (history_contents (append_turns env sid turns w) sid)
      \<le> 2 * nat (maxConversationLength env) \<and>
    (history s = [] \<longrightarrow>
       history_contents (append_turns env sid turns w) sid =
         concat (map turn_contents (lastN (nat (maxConversationLength env)) turns)))"
proof -
  let ?m = "nat (maxConversationLength env)"
  have two: "nat (2 * maxConversationLength env) = 2 * ?m" using assms(1) by (simp add: nat_mult_distrib)
  have b: "length (history_contents w sid) \<le> nat (2 * maxConversationLength env)"
    using assms(1,2,3) by (simp add: history_contents_def history_bounded_def) force
  have e: "sessions w sid \<noteq> None" using assms(3) by simp
  have c: "history_contents (append_turns env sid turns w) sid =
      lastN (2 * ?m) (history_contents w sid @ concat (map turn_contents turns))"
    using history_contents_append_turns [OF assms(1) e b, of turns] by (simp add: two)
  have l: "length (history_contents (append_turns env sid turns w) sid) \<le> 2 * ?m"
    by (simp add: c length_lastN)
  have f: "history s = [] \<longrightarrow> history_contents (append_turns env sid turns w) sid =
         concat (map turn_contents (lastN ?m turns))"
  proof
    assume "history s = []"
    then have "history_contents w sid = []" using assms(3) by (simp add: history_contents_def)
    then show "history_contents (append_turns env sid turns w) sid =
         concat (map turn_contents (lastN ?m turns))"
      by (simp add: c lastN_concat_turns)
  qed
  from history_bounded_ops [OF assms(1,2), of ops] c l f show ?thesis by blast
qed

text \<open>The theorem at two turns appended to a new session that keeps one turn.\<close>

theorem addMessage_history_window_witness:
  "0 < maxConversationLength example_env \<and>
   history_bounded example_env (snd (getSession example_env (Some ''session-1'') empty_world)) \<and>
   sessions (snd (getSession example_env (Some ''session-1'') empty_world)) ''session-1''
     = Some (fst (getSession example_env (Some ''session-1'') empty_world)) \<and>
   history (fst (getSession example_env (Some ''session-1'') empty_world)) = [] \<and>
   history_contents
     (append_turns example_env ''session-1''
        [(''hello'', JStr ''Hi!''), (''dishes with chicken'', JStr ''Try these.'')]
        (snd (getSession example_env (Some ''session-1'') empty_world))) ''session-1''
     = [(''user'', JStr ''dishes with chicken''), (''assistant'', JStr ''Try these.'')]"
proof -
  let ?w = "snd (getSession example_env (Some ''session-1'') empty_world)"
  let ?s = "fst (getSession example_env (Some ''session-1'') empty_world)"
  have p: "0 < maxConversationLength example_env" by (simp add: example_env_def)
  have s: "sessions ?w ''session-1'' = Some ?s" "history ?s = []"
    by (simp_all add: getSession_def createSession_def new_Date_def empty_world_def Let_def)
  have b: "history_bounded example_env ?w"
    by (simp add: history_bounded_def getSession_def createSession_def new_Date_def
        empty_world_def Let_def example_env_def)
  from addMessage_history_window [OF p b s(1), of "[]"
      "[(''hello'', JStr ''Hi!''), (''dishes with chicken'', JStr ''Try these.'')]"] s(2)
  have "history_contents
     (append_turns example_env ''session-1''
        [(''hello'', JStr ''Hi!''), (''dishes with chicken'', JStr ''Try these.'')] ?w) ''session-1''
     = concat (map turn_contents (lastN (nat (maxConversationLength example_env))
         [(''hello'', JStr ''Hi!''), (''dishes with chicken'', JStr ''Try these.'')]))"
    by blast
  also have "\<dots> = [(''user'', JStr ''dishes with chicken''), (''assistant'', JStr ''Try these.'')]"
    by (simp add: example_env_def lastN_def turn_contents_def)
  finally show ?thesis using p b s by simp
qed

section \<open>The session store's get operation\<close>

lemma getSession_known:
  assumes "ident = Some sid" "sid \<noteq> []" "sessions w sid = Some s"
  shows "fst (getSession env ident w) = s\<lparr>lastActivity := clock env (ticks w)\<rparr>"
    and "sessions (snd (getSession env ident w)) =
           (sessions w)(sid \<mapsto> s\<lparr>lastActivity := clock env (ticks w)\<rparr>)"
  using assms by (simp_all add: getSession_def new_Date_def Let_def)

lemma createSession_new:
  "history (fst (createSession env ident w)) = []"
  "lastMealData (fst (createSession env ident w)) = None"
  "sessions (snd (createSession env ident w)) =
     (sessions w)(session_id (fst (createSession env ident w)) \<mapsto> fst (createSession env ident w))"
  "session_id (fst (createSession env ident w)) =
     (case ident of None \<Rightarrow> uuidv4 env (uuids w)
      | Some given \<Rightarrow> if given \<noteq> [] then given else uuidv4 env (uuids w))"
  by (simp_all add: createSession_def new_Date_def next_uuid_def Let_def split: option.splits)

lemma getSession_unknown:
  assumes "\<not> known_session w ident"
  shows "getSession env ident w =
    createSession env (case ident of None \<Rightarrow> None | Some sid \<Rightarrow> if sid = [] then None else Some sid) w"
  using assms by (auto simp: getSession_def known_session_def split: option.splits)



lemma store_keyed_getSession:
  assumes "store_keyed w"
  shows "store_keyed (snd (getSession env ident w))"
proof (cases "known_session w ident")
  case True
  then obtain sid s where k: "ident = Some sid" "sid \<noteq> []" "sessions w sid = Some s"
    by (auto simp: known_session_def split: option.splits)
  from assms k(3) have "session_id s = sid" by (simp add: store_keyed_def)
  with assms show ?thesis
    unfolding store_keyed_def getSession_known(2) [OF k] by simp
next
  case False
  from assms show ?thesis
    unfolding store_keyed_def getSession_unknown [OF False] createSession_new(3) by simp
qed

lemma store_keyed_addMessage:
  assumes "store_keyed w"
  shows "store_keyed (addMessage env sid u a w)"
  using assms
  by (auto simp: store_keyed_def addMessage_def new_Date_def Let_def
      split: option.splits prod.splits if_splits)

lemma store_keyed_ops: "store_keyed w \<Longrightarrow> store_keyed (foldl (apply_op env) w ops)"
proof (induction ops arbitrary: w)
  case Nil
  then show ?case by simp
next
  case (Cons op ops)
  have "store_keyed (apply_op env w op)"
    using Cons.prems by (cases op) (simp_all add: store_keyed_addMessage store_keyed_getSession)
  then show ?case using Cons.IH by simp
qed





section \<open>The fallback selection\<close>

lemma js_get_record: "is_record v \<Longrightarrow> js_get v k = Inr (record_field v k)"
  by (cases v) (simp_all add: is_record_def record_field_def)

lemma createFallbackSelection_meals_take:
  "list_all is_record meals \<Longrightarrow> length acc < 3 \<Longrightarrow>
   createFallbackSelection_meals meals acc =
     Inr (acc @ map lookup_operation (take (3 - length acc) meals))"
proof (induction meals arbitrary: acc)
  case Nil
  then show ?case by simp
next
  case (Cons meal meals)
  from Cons.prems have r: "is_record meal" "list_all is_record meals" by simp_all
  let ?acc = "acc @ [lookup_operation meal]"
  show ?case
  proof (cases "length ?acc \<ge> 3")
    case True
    with Cons.prems(2) have "3 - length acc = Suc 0" by simp
    with True show ?thesis
      by (simp add: js_get_record [OF r(1)] lookup_operation_def Let_def)
  next
    case False
    then have l: "length ?acc < 3" by simp
    have t: "3 - length acc = Suc (3 - length ?acc)" using l by simp
    from False Cons.IH [OF r(2) l] show ?thesis
      unfolding t
      by (simp add: js_get_record [OF r(1)] lookup_operation_def Let_def)
  qed
qed

lemma createFallbackSelection_results_take:
  "list_all is_record (all_records results) \<Longrightarrow> length acc < 3 \<Longrightarrow>
   createFallbackSelection_results results acc =
     Inr (acc @ map lookup_operation (take (3 - length acc) (all_records results)))"
proof (induction results arbitrary: acc)
  case Nil
  then show ?case by (simp add: all_records_def)
next
  case (Cons r results)
  show ?case
  proof (cases "res_meals r")
    case None
    with Cons show ?thesis by (simp add: all_records_def)
  next
    case (Some meals)
    from Cons.prems(1) Some have rm: "list_all is_record meals"
      and rr: "list_all is_record (all_records results)"
      by (simp_all add: all_records_def)
    have a: "all_records (r # results) = meals @ all_records results"
      using Some by (simp add: all_records_def)
    show ?thesis
    proof (cases "meals = []")
      case True
      with Cons.IH [OF rr Cons.prems(2)] Some a show ?thesis by simp
    next
      case False
      let ?k = "3 - length acc"
      have k3: "min ?k 3 = ?k" by simp
      have "list_all is_record (take 3 meals)" using rm by (simp add: list_all_iff) (meson in_set_takeD)
      from createFallbackSelection_meals_take [OF this Cons.prems(2)]
      have inner: "createFallbackSelection_meals (take 3 meals) acc =
          Inr (acc @ map lookup_operation (take ?k meals))"
        by (simp add: k3 min.commute)
      let ?acc = "acc @ map lookup_operation (take ?k meals)"
      show ?thesis
      proof (cases "length ?acc \<ge> 3")
        case True
        then have "?k \<le> length meals" using Cons.prems(2) by simp
        then have "take ?k (meals @ all_records results) = take ?k meals" by simp
        with True False Some inner Cons.prems(2) show ?thesis by (simp add: a)
      next
        case short: False
        then have lm: "length meals < ?k" by simp
        then have l: "length ?acc < 3" using short by simp
        have tk: "take ?k meals = meals" using lm by simp
        have "3 - length ?acc = ?k - length meals" using lm by (simp add: tk)
        with Cons.IH [OF rr l] short False Some inner lm show ?thesis
          by (simp add: a tk)
      qed
    qed
  qed
qed

lemma createFallbackSelection_first_three:
  "list_all is_record (all_records results) \<Longrightarrow>
   createFallbackSelection results = Inr (map lookup_operation (take 3 (all_records results)))"
  using createFallbackSelection_results_take [of results "[]"]
  by (simp add: createFallbackSelection_def)

text \<open>
  Claim C7. When the selection call fails, or its text is unusable, the selection is the
  fallback, which is a function of the result set alone: one lookup operation for each of
  the first three records of the result set, in their original order, carrying the
  record's identifier. The records are record-like mappings, as in the data model of the
  specification.
\<close>

theorem selectRecipes_fallback_first_three:
  assumes "list_all is_record (all_records filterResults)"
    and "createPhase2Prompt env userMessage filterResults = Inr prompt"
    and "generation_unusable env (invokeModel env prompt)"
  shows "selectRecipes env filterResults userMessage =
           ([Invoke prompt],
            Inr (JObj [(''api_calls'',
                        JArr (map lookup_operation (take 3 (all_records filterResults))))])) \<and>
         createFallbackSelection filterResults =
           Inr (map lookup_operation (take 3 (all_records filterResults)))"
proof -
  note f = createFallbackSelection_first_three [OF assms(1)]
  have r: "createFallbackSelectionResult filterResults =
      Inr (JObj [(''api_calls'', JArr (map lookup_operation (take 3 (all_records filterResults))))])"
    by (simp add: createFallbackSelectionResult_def f)
  have "(case bind_err (invokeModel env prompt)
                 (\<lambda>response. parseSelectionResponse env response filterResults) of
            Inl err \<Rightarrow> createFallbackSelectionResult filterResults
          | Inr x \<Rightarrow> Inr x) = createFallbackSelectionResult filterResults"
  proof (cases "invokeModel env prompt")
    case (Inl e)
    then show ?thesis by simp
  next
    case (Inr response)
    show ?thesis
    proof (cases "JSON_parse env response")
      case None
      with Inr show ?thesis by (simp add: parseSelectionResponse_def r)
    next
      case (Some parsed)
      show ?thesis
      proof (cases "js_get parsed ''api_calls''")
        case (Inl e)
        with Inr Some show ?thesis by (simp add: parseSelectionResponse_def)
      next
        case v: (Inr v)
        with assms(3) Inr Some have "\<not> isArray v" by (simp add: generation_unusable_def)
        with Inr Some v show ?thesis by (simp add: parseSelectionResponse_def r)
      qed
    qed
  qed
  with assms(2) r f show ?thesis by (simp add: selectRecipes_def)
qed

text \<open>
  The theorem at the five summary records of the example, the selection call timing out:
  the lookups of the first three.
\<close>

theorem selectRecipes_fallback_first_three_witness:
  "list_all is_record (all_records [createValidResponse demo_summaries]) \<and>
   createPhase2Prompt demo_env ''dishes with chicken'' [createValidResponse demo_summaries] = Inr 2 \<and>
   generation_unusable demo_env (invokeModel demo_env 2) \<and>
   selectRecipes demo_env [createValidResponse demo_summaries] ''dishes with chicken'' =
     ([Invoke 2],
      Inr (JObj [(''api_calls'',
        JArr [JObj [(''endpoint'', JStr ''lookup.php''), (''params'', JObj [(''i'', JStr ''52771'')])],
              JObj [(''endpoint'', JStr ''lookup.php''), (''params'', JObj [(''i'', JStr ''52772'')])],
              JObj [(''endpoint'', JStr ''lookup.php''), (''params'', JObj [(''i'', JStr ''52773'')])]])]))"
proof -
  have a: "all_records [createValidResponse demo_summaries] = demo_summaries"
    by (simp add: all_records_def createValidResponse_def)
  have r: "list_all is_record (all_records [createValidResponse demo_summaries])"
    unfolding a by (simp add: demo_summaries_def demo_summary_def is_record_def)
  have p: "createPhase2Prompt demo_env ''dishes with chicken'' [createValidResponse demo_summaries] = Inr 2"
    by (simp add: demo_env_def)
  have u: "generation_unusable demo_env (invokeModel demo_env 2)"
    by (simp add: demo_env_def generation_unusable_def)
  have t: "map lookup_operation (take 3 demo_summaries) =
        [JObj [(''endpoint'', JStr ''lookup.php''), (''params'', JObj [(''i'', JStr ''52771'')])],
         JObj [(''endpoint'', JStr ''lookup.php''), (''params'', JObj [(''i'', JStr ''52772'')])],
         JObj [(''endpoint'', JStr ''lookup.php''), (''params'', JObj [(''i'', JStr ''52773'')])]]"
    by (simp add: demo_summaries_def demo_summary_def lookup_operation_def record_field_def)
  from selectRecipes_fallback_first_three [OF r p u] r p u show ?thesis
    by (simp add: a t)
qed

section \<open>The batch executor\<close>

lemma processResponse_Inr: "\<exists>r. processResponse data endpoint = Inr r \<and> \<not> res_error r"
proof (cases "js_truthy data")
  case False
  then show ?thesis by (simp add: processResponse_def createEmptyResponse_def)
next
  case True
  then obtain meals where m: "js_get data ''meals'' = Inr meals" by (cases data) simp_all
  show ?thesis
    using True m
    by (cases meals)
      (simp_all add: processResponse_def createEmptyResponse_def createValidResponse_def
        createUnexpectedResponse_def)
qed

lemma well_formed_operation_record:
  assumes "well_formed_operation call"
  shows "is_record call" "record_field call ''params'' \<noteq> JNull"
    "record_field call ''params'' \<noteq> JUndefined"
proof -
  from wf_shape [OF assms] obtain props e ps where
    s: "call = JObj props" "map_of props ''endpoint'' = Some (JStr e)"
       "map_of props ''params'' = Some (JObj ps)" by blast
  then show "is_record call" "record_field call ''params'' \<noteq> JNull"
    "record_field call ''params'' \<noteq> JUndefined"
    by (simp_all add: is_record_def record_field_def)
qed

lemma createBatchPromise_operation:
  assumes "well_formed_operation call"
  shows "createBatchPromise env call =
     ([Get (record_field call ''endpoint'') (record_field call ''params'')],
      Inr (batch_result env call))"
proof -
  note w = well_formed_operation_record [OF assms]
  note g = js_get_record [OF w(1)]
  let ?e = "record_field call ''endpoint''" and ?p = "record_field call ''params''"
  show ?thesis
  proof (cases "client_get env ?e ?p")
    case (Inl e)
    then show ?thesis
      using w(2,3)
      by (simp add: createBatchPromise_def g executeCall_def buildURL_def logAndThrowError_def
          createBatchErrorResult_def batch_result_def Error_def)
  next
    case (Inr data)
    from processResponse_Inr [of data ?e] obtain r where "processResponse data ?e = Inr r" by blast
    with Inr show ?thesis
      using w(2,3)
      by (simp add: createBatchPromise_def g executeCall_def buildURL_def batch_result_def)
  qed
qed

lemma processBatchResults_fulfilled:
  "processBatchResults (map Inr rs) calls = Inr (take (length calls) rs)"
proof (induction rs arbitrary: calls)
  case Nil
  then show ?case by simp
next
  case (Cons r rs)
  then show ?case by (cases calls) simp_all
qed

lemma executeBatch_operations:
  assumes "\<forall>call \<in> set calls. well_formed_operation call"
  shows "executeBatch env (JArr calls) =
     (map (\<lambda>call. Get (record_field call ''endpoint'') (record_field call ''params'')) calls,
      Inr (map (batch_result env) calls))"
proof -
  have m: "map (createBatchPromise env) calls =
      map (\<lambda>call. ([Get (record_field call ''endpoint'') (record_field call ''params'')],
                    Inr (batch_result env call))) calls"
    using assms by (simp add: createBatchPromise_operation)
  have s: "map snd (map (createBatchPromise env) calls) = map Inr (map (batch_result env) calls)"
    unfolding m by (simp add: comp_def)
  have f: "concat (map fst (map (createBatchPromise env) calls)) =
      map (\<lambda>call. Get (record_field call ''endpoint'') (record_field call ''params'')) calls"
    unfolding m by (induction calls) simp_all
  show ?thesis
    by (simp add: executeBatch_def Let_def s f processBatchResults_fulfilled del: map_map)
qed

lemma res_error_batch_result: "res_error (batch_result env call) = upstream_fails env call"
proof (cases "client_get env (record_field call ''endpoint'') (record_field call ''params'')")
  case (Inl e)
  then show ?thesis by (simp add: batch_result_def upstream_fails_def)
next
  case (Inr data)
  from processResponse_Inr [of data "record_field call ''endpoint''"] Inr show ?thesis
    by (auto simp: batch_result_def upstream_fails_def)
qed

text \<open>
  Claim C2. For a batch of N Operations, \<open>executeBatch\<close> sends one request per operation,
  in the order of the batch, and returns N results in that order: at each position where
  the request fails, a result marked as an error that carries the endpoint and the
  parameters of the operation at that position; at each other position, the unmarked
  result made from the payload of the request. With k failing requests, k results are
  marked and N - k are not. An empty batch gives no result and sends no request.
\<close>

theorem executeBatch_one_result_per_operation:
  assumes "\<forall>call \<in> set calls. well_formed_operation call"
  shows "\<exists>results.
      executeBatch env (JArr calls) =
        (map (\<lambda>call. Get (record_field call ''endpoint'') (record_field call ''params'')) calls,
         Inr results) \<and>
      length results = length calls \<and>
      length (filter res_error results) = length (filter (upstream_fails env) calls) \<and>
      length (filter (\<lambda>r. \<not> res_error r) results) =
        length calls - length (filter (upstream_fails env) calls) \<and>
      (\<forall>i < length calls.
         (upstream_fails env (calls ! i) \<longrightarrow>
            res_error (results ! i) \<and>
            res_endpoint (results ! i) = record_field (calls ! i) ''endpoint'' \<and>
            res_params (results ! i) = record_field (calls ! i) ''params'') \<and>
         (\<not> upstream_fails env (calls ! i) \<longrightarrow>
            \<not> res_error (results ! i) \<and>
            (\<exists>data. client_get env (record_field (calls ! i) ''endpoint'')
                       (record_field (calls ! i) ''params'') = Inr data \<and>
                    processResponse data (record_field (calls ! i) ''endpoint'')
                      = Inr (results ! i)))) \<and>
      executeBatch env (JArr []) = ([], Inr [])"
proof -
  let ?rs = "map (batch_result env) calls"
  have k: "length (filter res_error ?rs) = length (filter (upstream_fails env) calls)"
    by (simp add: length_filter_map comp_def res_error_batch_result)
  have n: "length (filter (\<lambda>r. \<not> res_error r) ?rs) =
      length calls - length (filter (upstream_fails env) calls)"
    using sum_length_filter_compl [of res_error ?rs] k by simp
  have i: "(upstream_fails env (calls ! i) \<longrightarrow>
            res_error (?rs ! i) \<and>
            res_endpoint (?rs ! i) = record_field (calls ! i) ''endpoint'' \<and>
            res_params (?rs ! i) = record_field (calls ! i) ''params'') \<and>
         (\<not> upstream_fails env (calls ! i) \<longrightarrow>
            \<not> res_error (?rs ! i) \<and>
            (\<exists>data. client_get env (record_field (calls ! i) ''endpoint'')
                       (record_field (calls ! i) ''params'') = Inr data \<and>
                    processResponse data (record_field (calls ! i) ''endpoint'')
                      = Inr (?rs ! i)))" if "i < length calls" for i
  proof (cases "client_get env (record_field (calls ! i) ''endpoint'') (record_field (calls ! i) ''params'')")
    case (Inl e)
    with that show ?thesis by (simp add: batch_result_def upstream_fails_def)
  next
    case (Inr data)
    from processResponse_Inr [of data "record_field (calls ! i) ''endpoint''"]
    obtain r where "processResponse data (record_field (calls ! i) ''endpoint'') = Inr r"
      "\<not> res_error r" by blast
    with that Inr show ?thesis by (simp add: batch_result_def upstream_fails_def)
  qed
  have e: "executeBatch env (JArr []) = ([], Inr [])" by (simp add: executeBatch_def)
  from executeBatch_operations [OF assms, of env] k n i e show ?thesis
    by (intro exI [of _ ?rs]) simp
qed

text \<open>
  The theorem at the lookups of the first three records of the example, of which the
  second cannot be resolved.
\<close>

theorem executeBatch_one_result_per_operation_witness:
  "well_formed_operation (lookup_operation (demo_summary ''52771'' ''Chicken Handi'')) \<and>
   well_formed_operation (lookup_operation (demo_summary ''52772'' ''Chicken Congee'')) \<and>
   well_formed_operation (lookup_operation (demo_summary ''52773'' ''Chicken Karaage'')) \<and>
   \<not> upstream_fails demo_env (lookup_operation (demo_summary ''52771'' ''Chicken Handi'')) \<and>
   upstream_fails demo_env (lookup_operation (demo_summary ''52772'' ''Chicken Congee'')) \<and>
   \<not> upstream_fails demo_env (lookup_operation (demo_summary ''52773'' ''Chicken Karaage'')) \<and>
   (\<exists>results.
      snd (executeBatch demo_env (JArr (map lookup_operation (take 3 demo_summaries)))) = Inr results \<and>
      length results = 3 \<and>
      length (filter res_error results) = 1 \<and>
      \<not> res_error (results ! 0) \<and>
      res_error (results ! 1) \<and>
      res_endpoint (results ! 1) = JStr ''lookup.php'' \<and>
      res_params (results ! 1) = JObj [(''i'', JStr ''52772'')] \<and>
      \<not> res_error (results ! 2))"
proof -
  let ?a = "lookup_operation (demo_summary ''52771'' ''Chicken Handi'')"
  let ?b = "lookup_operation (demo_summary ''52772'' ''Chicken Congee'')"
  let ?c = "lookup_operation (demo_summary ''52773'' ''Chicken Karaage'')"
  have c: "map lookup_operation (take 3 demo_summaries) = [?a, ?b, ?c]"
    by (simp add: demo_summaries_def)
  have w: "well_formed_operation ?a" "well_formed_operation ?b" "well_formed_operation ?c"
    by (simp_all add: well_formed_operation_def lookup_operation_def demo_summary_def record_field_def)
  have u: "\<not> upstream_fails demo_env ?a" "upstream_fails demo_env ?b" "\<not> upstream_fails demo_env ?c"
    by (simp_all add: upstream_fails_def lookup_operation_def demo_summary_def record_field_def
        demo_env_def)
  have f: "record_field ?b ''endpoint'' = JStr ''lookup.php''"
    "record_field ?b ''params'' = JObj [(''i'', JStr ''52772'')]"
    by (simp_all add: lookup_operation_def demo_summary_def record_field_def)
  have "\<forall>call \<in> set [?a, ?b, ?c]. well_formed_operation call" using w by simp
  from executeBatch_one_result_per_operation [OF this, of demo_env]
  obtain results where r:
    "snd (executeBatch demo_env (JArr [?a, ?b, ?c])) = Inr results"
    "length results = 3"
    "length (filter res_error results) = length (filter (upstream_fails demo_env) [?a, ?b, ?c])"
    "\<forall>i < length [?a, ?b, ?c].
         (upstream_fails demo_env ([?a, ?b, ?c] ! i) \<longrightarrow>
            res_error (results ! i) \<and>
            res_endpoint (results ! i) = record_field ([?a, ?b, ?c] ! i) ''endpoint'' \<and>
            res_params (results ! i) = record_field ([?a, ?b, ?c] ! i) ''params'') \<and>
         (\<not> upstream_fails demo_env ([?a, ?b, ?c] ! i) \<longrightarrow> \<not> res_error (results ! i))"
    by fastforce
  from r(4) [rule_format, of 0] r(4) [rule_format, of 1] r(4) [rule_format, of 2] u
  have "\<not> res_error (results ! 0)" "res_error (results ! 1)"
    "res_endpoint (results ! 1) = JStr ''lookup.php''"
    "res_params (results ! 1) = JObj [(''i'', JStr ''52772'')]" "\<not> res_error (results ! 2)"
    by (simp_all add: f)
  moreover have "length (filter res_error results) = 1" using r(3) u by simp
  ultimately show ?thesis using w u r(1,2) unfolding c by blast
qed

section \<open>The error boundary of processRequest\<close>

lemma js_startsWith_prefix: "js_startsWith s t = prefix t s"
  by (induction s t rule: js_startsWith.induct) (simp_all add: eq_commute)

lemma js_includes_sublist: "js_includes s t = sublist t s"
  by (induction s) (simp_all add: js_startsWith_prefix sublist_Cons_right)

lemma createErrorResponse_apology: "createErrorResponse e = apology_for (errMessage e)"
  by (simp add: createErrorResponse_def apology_for_def js_includes_sublist)

lemma processRequest_catch_outcome:
  "error (fst (processRequest_catch env e userMessage session startTime w))"
  "errorMessage (fst (processRequest_catch env e userMessage session startTime w)) = Some (errMessage e)"
  "message (fst (processRequest_catch env e userMessage session startTime w)) = JStr (createErrorResponse e)"
  "apiCallsMade (fst (processRequest_catch env e userMessage session startTime w)) = 0"
  "phasesExecuted (fst (processRequest_catch env e userMessage session startTime w)) = None"
  by (simp_all add: processRequest_catch_def Let_def split: prod.splits)

lemma afterRetrieval_success:
  "afterRetrieval env userMessage session startTime n initialData w = (w', ev, Inr r) \<Longrightarrow> \<not> error r"
  by (auto simp: afterRetrieval_def Let_def split: prod.splits sum.splits)

lemma processRequest_try_success:
  assumes "processRequest_try env userMessage session startTime w = (w', ev, Inr r)"
  shows "\<not> error r"
proof (cases "analyzePipeline env userMessage (history session)")
  case (Pair ev1 a)
  show ?thesis
  proof (cases a)
    case (Inl e)
    with Pair assms show ?thesis by (simp add: processRequest_try_def)
  next
    case (Inr aiResponse)
    show ?thesis
    proof (cases "js_get aiResponse ''direct_response''")
      case (Inl e)
      with Pair Inr assms show ?thesis by (simp add: processRequest_try_def)
    next
      case d: (Inr response)
      show ?thesis
      proof (cases "js_truthy response")
        case True
        with Pair Inr d assms show ?thesis
          by (auto simp: processRequest_try_def Let_def split: prod.splits)
      next
        case False
        show ?thesis
        proof (cases "js_get aiResponse ''api_calls''")
          case (Inl e)
          with Pair Inr d False assms show ?thesis by (simp add: processRequest_try_def)
        next
          case c: (Inr api_calls)
          show ?thesis
          proof (cases "\<exists>calls. api_calls = JArr calls")
            case not_array: False
            with Pair Inr d False c assms show ?thesis
              by (cases api_calls) (simp_all add: processRequest_try_def)
          next
            case True
            then obtain calls where a: "api_calls = JArr calls" by blast
            show ?thesis
            proof (cases "validateApiCalls (max_api_calls env) api_calls")
              case (Inl e)
              with Pair Inr d False c a assms show ?thesis by (simp add: processRequest_try_def)
            next
              case v: (Inr ok)
              show ?thesis
              proof (cases "executeBatch env api_calls")
                case b: (Pair ev3 res)
                show ?thesis
                proof (cases res)
                  case (Inl e)
                  with Pair Inr d False c a v b assms show ?thesis
                    by (simp add: processRequest_try_def Let_def)
                next
                  case i: (Inr initialData)
                  with Pair Inr d False c a v b assms
                  obtain ev4 where "afterRetrieval env userMessage session startTime (length calls)
                      initialData w = (w', ev4, Inr r)"
                    by (auto simp: processRequest_try_def Let_def split: prod.splits)
                  then show ?thesis by (rule afterRetrieval_success)
                qed
              qed
            qed
          qed
        qed
      qed
    qed
  qed
qed

lemma processRequest_alt:
  "processRequest env userMessage givenId w =
     (case processRequest_try env userMessage
             (fst (getSession env givenId (snd (new_Date env w)))) (fst (new_Date env w))
             (snd (getSession env givenId (snd (new_Date env w)))) of
        (w3, ev, Inr r) \<Rightarrow> (w3, ev, Inr r)
      | (w3, ev, Inl e) \<Rightarrow>
          (snd (processRequest_catch env e userMessage
                  (Some (fst (getSession env givenId (snd (new_Date env w)))))
                  (fst (new_Date env w)) w3),
           ev,
           Inr (fst (processRequest_catch env e userMessage
                  (Some (fst (getSession env givenId (snd (new_Date env w)))))
                  (fst (new_Date env w)) w3))))"
  by (simp add: processRequest_def Let_def case_prod_beta split: prod.splits sum.splits)

text \<open>
  Claim C1. \<open>processRequest\<close> returns an outcome for every message, identifier and state
  of the store, whatever the environment does. When the statements of its \<open>try\<close> block
  finish, it returns their outcome, which is not flagged. When they throw, it returns an
  outcome that is flagged as an error, records the text of the error, and whose message is
  the apology chosen by the occurrence in that text of \<open>validation\<close>, else of
  \<open>unavailable\<close>, else of \<open>timeout\<close>, else the generic one.
\<close>

theorem processRequest_never_raises:
  "(\<exists>w' events result. processRequest env userMessage givenId w = (w', events, Inr result)) \<and>
   (case processRequest_try env userMessage
           (fst (getSession env givenId (snd (new_Date env w)))) (fst (new_Date env w))
           (snd (getSession env givenId (snd (new_Date env w)))) of
      (w3, events, Inr r) \<Rightarrow>
        processRequest env userMessage givenId w = (w3, events, Inr r) \<and> \<not> error r
    | (w3, events, Inl e) \<Rightarrow>
        (case processRequest env userMessage givenId w of
           (w4, events', Inr result) \<Rightarrow>
             events' = events \<and> error result \<and> errorMessage result = Some (errMessage e) \<and>
             message result = JStr (apology_for (errMessage e))
         | (w4, events', Inl e') \<Rightarrow> False))"
proof -
  let ?s = "fst (getSession env givenId (snd (new_Date env w)))"
  let ?t = "fst (new_Date env w)"
  let ?w = "snd (getSession env givenId (snd (new_Date env w)))"
  obtain w3 ev res where t: "processRequest_try env userMessage ?s ?t ?w = (w3, ev, res)"
    by (cases "processRequest_try env userMessage ?s ?t ?w") auto
  show ?thesis
  proof (cases res)
    case (Inr r)
    from processRequest_try_success [OF t [unfolded Inr]] have "\<not> error r" .
    with t Inr show ?thesis by (simp add: processRequest_alt)
  next
    case (Inl e)
    with t show ?thesis
      by (simp add: processRequest_alt processRequest_catch_outcome createErrorResponse_apology)
  qed
qed

section \<open>The parse of the interpretation step\<close>

text \<open>
  Every text whose decoding is not \<open>null\<close> is parsed into the decoded batch or into a
  direct response that wraps the text.
\<close>

lemma parseAnalysisResponse_other_texts:
  assumes "JSON_parse env response \<noteq> Some JNull" "JSON_parse env response \<noteq> Some JUndefined"
  shows "(\<exists>parsed calls. JSON_parse env response = Some parsed \<and>
            js_get parsed ''api_calls'' = Inr (JArr calls) \<and>
            parseAnalysisResponse env response = Inr parsed) \<or>
         parseAnalysisResponse env response = Inr (JObj [(''direct_response'', JStr response)])"
proof (cases "JSON_parse env response")
  case None
  then show ?thesis by (simp add: parseAnalysisResponse_def)
next
  case (Some parsed)
  with assms have "parsed \<noteq> JNull" "parsed \<noteq> JUndefined" by simp_all
  then obtain v where v: "js_get parsed ''api_calls'' = Inr v" by (cases parsed) simp_all
  show ?thesis
  proof (cases v)
    case (JArr calls)
    with Some v show ?thesis by (simp add: parseAnalysisResponse_def)
  qed (use Some v in \<open>simp_all add: parseAnalysisResponse_def\<close>)
qed

text \<open>
  Claim C8. The claim says that every text of the interpretation step is parsed into a
  structured batch or a direct response and never fails the stage. The text \<open>null\<close> is
  valid JSON and decodes to \<open>null\<close>; \<open>parseAnalysisResponse\<close> then reads \<open>api_calls\<close> of
  \<open>null\<close>, which throws a TypeError; \<open>analyzePipeline\<close> rethrows it and \<open>processRequest\<close>
  answers with its error outcome instead of the direct response \<open>null\<close>.
\<close>

theorem parseAnalysisResponse_null:
  "JSON_parse null_env ''null'' = Some JNull \<and>
   invokeModel null_env (createPhase1Prompt null_env ''hello'' []) = Inr ''null'' \<and>
   parseAnalysisResponse null_env ''null'' =
     Inl (TypeError (''Cannot read properties of null (reading '' @ [CHR 0x27] @ ''api_calls'' @ [CHR 0x27] @ '')'')) \<and>
   snd (analyzePipeline null_env ''hello'' []) =
     Inl (Error (''Failed to analyze user intent: '' @ ''Cannot read properties of null (reading ''
                 @ [CHR 0x27] @ ''api_calls'' @ [CHR 0x27] @ '')'')) \<and>
   (case processRequest null_env ''hello'' None empty_world of
      (w, events, Inr result) \<Rightarrow>
         error result \<and> phasesExecuted result = None \<and>
         errorMessage result =
           Some (''Failed to analyze user intent: '' @ ''Cannot read properties of null (reading ''
                 @ [CHR 0x27] @ ''api_calls'' @ [CHR 0x27] @ '')'')
    | (w, events, Inl err) \<Rightarrow> False)"
proof -
  let ?m = "''Cannot read properties of null (reading '' @ [CHR 0x27] @ ''api_calls'' @ [CHR 0x27] @ '')''"
  have j: "JSON_parse null_env ''null'' = Some JNull"
    by (simp add: null_env_def demo_env_def demo_intent_text_def)
  have i: "invokeModel null_env p = Inr ''null''" for p
    by (simp add: null_env_def)
  have p: "parseAnalysisResponse null_env ''null'' = Inl (TypeError ?m)"
    by (simp add: parseAnalysisResponse_def j)
  have a: "analyzePipeline null_env ''hello'' h =
      ([Invoke (createPhase1Prompt null_env ''hello'' h)],
       Inl (Error (''Failed to analyze user intent: '' @ ?m)))" for h
    by (simp add: analyzePipeline_def Let_def i p TypeError_def)
  have t: "processRequest_try null_env ''hello'' s t w =
      (w, [Debug ''Phase 1: Analyzing user intent...'', Invoke (createPhase1Prompt null_env ''hello'' (history s))],
       Inl (Error (''Failed to analyze user intent: '' @ ?m)))" for s t w
    by (simp add: processRequest_try_def a)
  have r: "case processRequest null_env ''hello'' None empty_world of
      (w, events, Inr result) \<Rightarrow>
         error result \<and> phasesExecuted result = None \<and>
         errorMessage result = Some (''Failed to analyze user intent: '' @ ?m)
    | (w, events, Inl err) \<Rightarrow> False"
    by (simp add: processRequest_alt t processRequest_catch_outcome Error_def)
  have s: "snd (analyzePipeline null_env ''hello'' []) = Inl (Error (''Failed to analyze user intent: '' @ ?m))"
    by (simp only: a snd_conv)
  from j i [of "createPhase1Prompt null_env ''hello'' []"] p s r show ?thesis
    by (intro conjI)
qed

section \<open>The decision to enter phase 2\<close>

text \<open>
  When the interpretation step yields a batch that passes the validator and the batch is
  executed, \<open>processRequest\<close> goes on with \<open>afterRetrieval\<close> on the results.
\<close>

lemma processRequest_try_retrieval:
  assumes "analyzePipeline env userMessage (history session) = (ev, Inr aiResponse)"
    and "js_get aiResponse ''direct_response'' = Inr response" and "\<not> js_truthy response"
    and "js_get aiResponse ''api_calls'' = Inr (JArr calls)"
    and "validateApiCalls (max_api_calls env) (JArr calls) = Inr ok"
    and "executeBatch env (JArr calls) = (ev3, Inr initialData)"
  shows "processRequest_try env userMessage session startTime w =
     (fst (afterRetrieval env userMessage session startTime (length calls) initialData w),
      Debug ''Phase 1: Analyzing user intent...'' # ev @
        [Debug (''Phase 1: Executing '' @ show_nat (length calls) @ '' API calls...'')] @ ev3 @
        fst (snd (afterRetrieval env userMessage session startTime (length calls) initialData w)),
      snd (snd (afterRetrieval env userMessage session startTime (length calls) initialData w)))"
  using assms
  by (simp add: processRequest_try_def Let_def split: prod.splits)

text \<open>
  A result with records that the service returns is not marked empty.
\<close>

lemma processResponse_unmarked:
  "processResponse data endpoint = Inr r \<Longrightarrow> res_meals r = Some meals \<Longrightarrow> \<not> res_isEmpty r"
  by (auto simp: processResponse_def createEmptyResponse_def createValidResponse_def
      createUnexpectedResponse_def bind_err_Inr_iff split: if_splits jsval.splits)

lemma createBatchErrorResult_meals:
  "createBatchErrorResult e call = Inr r \<Longrightarrow> res_meals r = None"
  by (auto simp: createBatchErrorResult_def bind_err_Inr_iff)

lemma handleRejectedBatchResult_meals:
  "handleRejectedBatchResult e call = Inr r \<Longrightarrow> res_meals r = None"
  by (auto simp: handleRejectedBatchResult_def bind_err_Inr_iff)

lemma executeCall_unmarked:
  "snd (executeCall env endpoint params) = Inr r \<Longrightarrow> res_meals r = Some meals \<Longrightarrow> \<not> res_isEmpty r"
  by (auto simp: executeCall_def logAndThrowError_def processResponse_unmarked
      split: sum.splits)

lemma createBatchPromise_unmarked:
  assumes "snd (createBatchPromise env call) = Inr r" "res_meals r = Some meals"
  shows "\<not> res_isEmpty r"
proof (cases "bind_err (js_get call ''endpoint'') (\<lambda>endpoint.
           bind_err (js_get call ''params'') (\<lambda>params. Inr (endpoint, params)))")
  case (Inl e)
  with assms(1) have "createBatchErrorResult e call = Inr r"
    by (simp add: createBatchPromise_def)
  from createBatchErrorResult_meals [OF this] assms(2) show ?thesis by simp
next
  case (Inr args)
  obtain evs res where x: "executeCall env (fst args) (snd args) = (evs, res)"
    by (cases "executeCall env (fst args) (snd args)") auto
  show ?thesis
  proof (cases res)
    case (Inl e)
    with Inr x assms(1) have "createBatchErrorResult e call = Inr r"
      by (simp add: createBatchPromise_def)
    from createBatchErrorResult_meals [OF this] assms(2) show ?thesis by simp
  next
    case r: (Inr r')
    with Inr x assms(1) have "r' = r" by (simp add: createBatchPromise_def)
    with x r have "snd (executeCall env (fst args) (snd args)) = Inr r" by simp
    from executeCall_unmarked [OF this assms(2)] show ?thesis .
  qed
qed

lemma processBatchResults_unmarked:
  assumes "processBatchResults rs calls = Inr results"
    and "\<And>r meals. Inr r \<in> set rs \<Longrightarrow> res_meals r = Some meals \<Longrightarrow> \<not> res_isEmpty r"
    and "r \<in> set results" "res_meals r = Some meals"
  shows "\<not> res_isEmpty r"
  using assms
proof (induction rs calls arbitrary: results rule: processBatchResults.induct)
  case (1 result results' apiCall apiCalls)
  from "1.prems"(1) obtain r0 rs0 where
    a: "(case result of Inr v \<Rightarrow> Inr v | Inl reason \<Rightarrow> handleRejectedBatchResult reason apiCall) = Inr r0"
    and b: "processBatchResults results' apiCalls = Inr rs0" and c: "results = r0 # rs0"
    by (auto simp: bind_err_Inr_iff)
  from "1.prems"(3) c consider "r = r0" | "r \<in> set rs0" by auto
  then show ?case
  proof cases
    case 1
    show ?thesis
    proof (cases result)
      case (Inl reason)
      with a have "handleRejectedBatchResult reason apiCall = Inr r0" by simp
      from handleRejectedBatchResult_meals [OF this] 1 "1.prems"(4) show ?thesis by simp
    next
      case (Inr v)
      with a 1 have "result = Inr r" by simp
      then have "Inr r \<in> set (result # results')" by simp
      from "1.prems"(2) [OF this "1.prems"(4)] show ?thesis .
    qed
  next
    case 2
    show ?thesis
      by (rule "1.IH" [OF b _ 2 "1.prems"(4)]) (use "1.prems"(2) in auto)
  qed
qed simp_all

lemma executeBatch_unmarked:
  assumes "snd (executeBatch env apiCalls) = Inr results" "r \<in> set results"
    "res_meals r = Some meals"
  shows "\<not> res_isEmpty r"
proof (cases "\<exists>calls. apiCalls = JArr calls \<and> calls \<noteq> []")
  case False
  with assms(1) have "results = []"
    by (cases apiCalls) (auto simp: executeBatch_def)
  with assms(2) show ?thesis by simp
next
  case True
  then obtain calls where c: "apiCalls = JArr calls" "calls \<noteq> []" by blast
  with assms(1) have p: "processBatchResults (map snd (map (createBatchPromise env) calls)) calls
      = Inr results"
    by (simp add: executeBatch_def Let_def)
  show ?thesis
  proof (rule processBatchResults_unmarked [OF p _ assms(2,3)])
    fix r' meals'
    assume "Inr r' \<in> set (map snd (map (createBatchPromise env) calls))"
      and m: "res_meals r' = Some meals'"
    then obtain call where "snd (createBatchPromise env call) = Inr r'" by auto
    from createBatchPromise_unmarked [OF this m] show "\<not> res_isEmpty r'" .
  qed
qed

text \<open>
  The test of \<open>hasFilterResults\<close> on results of the service whose records are record-like
  and whose instructions, where present, are not empty.
\<close>

lemma record_field_absent:
  "\<not> has_field v k \<Longrightarrow> record_field v k = JUndefined"
  by (cases v) (auto simp: has_field_def record_field_def)

lemma isFilterResult_filter_style:
  assumes "res_meals r \<noteq> None \<longrightarrow> \<not> res_isEmpty r" and "instructions_nonempty r"
    and "list_all is_record (case res_meals r of None \<Rightarrow> [] | Some meals \<Rightarrow> meals)"
  shows "(case res_meals r of None \<Rightarrow> Inr False
    | Some meals \<Rightarrow> if length meals > 0 then isFilterResult r else Inr False) = Inr (filter_style r)"
proof (cases "res_meals r")
  case None
  then show ?thesis by (simp add: filter_style_def)
next
  case (Some meals)
  show ?thesis
  proof (cases meals)
    case Nil
    with Some show ?thesis by (simp add: filter_style_def)
  next
    case (Cons first rest)
    with assms(3) Some have "is_record first" by simp
    note g = js_get_record [OF this]
    from assms(1) Some have e: "\<not> res_isEmpty r" by simp
    have "js_truthy (record_field first ''strInstructions'') = has_field first ''strInstructions''"
    proof (cases "has_field first ''strInstructions''")
      case True
      with assms(2) Some Cons show ?thesis by (simp add: instructions_nonempty_def)
    next
      case False
      from record_field_absent [OF this] False show ?thesis by simp
    qed
    with Some Cons e show ?thesis
      by (simp add: isFilterResult_def hasResults_def filter_style_def g)
  qed
qed

lemma hasFilterResults_filter_style:
  assumes "\<forall>r \<in> set results. (res_meals r \<noteq> None \<longrightarrow> \<not> res_isEmpty r) \<and> instructions_nonempty r"
    and "list_all is_record (all_records results)"
  shows "hasFilterResults results = Inr (\<exists>r \<in> set results. filter_style r)"
  using assms
proof (induction results)
  case Nil
  then show ?case by simp
next
  case (Cons r results)
  from Cons.prems(2) have a: "list_all is_record (case res_meals r of None \<Rightarrow> [] | Some meals \<Rightarrow> meals)"
    and b: "list_all is_record (all_records results)"
    by (simp_all add: all_records_def)
  from Cons.prems(1) have c: "res_meals r \<noteq> None \<longrightarrow> \<not> res_isEmpty r" "instructions_nonempty r"
    and d: "\<forall>r \<in> set results. (res_meals r \<noteq> None \<longrightarrow> \<not> res_isEmpty r) \<and> instructions_nonempty r"
    by simp_all
  note f = isFilterResult_filter_style [OF c a]
  from Cons.IH [OF d b] show ?case by (simp add: f)
qed

text \<open>A batch that the validator accepts is executed, with one result per operation.\<close>

lemma validateApiCall_record: "validateApiCall call = Inr b \<Longrightarrow> is_record call"
  by (cases call)
    (simp_all add: validateApiCall_def validateApiCallStructure_def validateEndpoint_def
      is_record_def)

lemma forEach_records:
  "validateApiCalls_forEach i calls = Inr u \<Longrightarrow> list_all is_record calls"
proof (induction calls arbitrary: i)
  case Nil
  then show ?case by simp
next
  case (Cons call calls)
  then show ?case
    by (cases "validateApiCall call") (auto dest: validateApiCall_record)
qed

lemma validateApiCalls_records:
  "validateApiCalls m (JArr calls) = Inr ok \<Longrightarrow> list_all is_record calls \<and> calls \<noteq> []"
  by (auto simp: validateApiCalls_def bind_err_Inr_iff split: if_splits dest: forEach_records)

lemma createBatchPromise_record:
  assumes "is_record call"
  shows "\<exists>r. snd (createBatchPromise env call) = Inr r"
proof -
  from assms obtain props where c: "call = JObj props" by (cases call) (simp_all add: is_record_def)
  obtain evs res where x: "executeCall env (record_field call ''endpoint'') (record_field call ''params'') = (evs, res)"
    by (cases "executeCall env (record_field call ''endpoint'') (record_field call ''params'')") auto
  show ?thesis
    using x c
    by (cases res) (simp_all add: createBatchPromise_def record_field_def createBatchErrorResult_def)
qed

lemma executeBatch_records:
  assumes "list_all is_record calls"
  shows "\<exists>detail. snd (executeBatch env (JArr calls)) = Inr detail \<and> length detail = length calls"
proof -
  let ?g = "\<lambda>call. case snd (createBatchPromise env call) of Inr r \<Rightarrow> r"
  have "snd (createBatchPromise env call) = Inr (?g call)" if "call \<in> set calls" for call
  proof -
    from that assms have "is_record call" by (simp add: list_all_iff)
    from createBatchPromise_record [OF this, of env] show ?thesis by auto
  qed
  then have s: "map snd (map (createBatchPromise env) calls) = map Inr (map ?g calls)"
    by simp
  show ?thesis
    by (simp add: executeBatch_def Let_def s processBatchResults_fulfilled del: map_map)
qed

lemma detail_results_Nil [simp]: "detail_results env [] = []"
  by (simp add: detail_results_def executeBatch_def)

lemma detail_events_Nil [simp]: "detail_events env [] = []"
  by (simp add: detail_events_def)

lemma selected_batch_executed:
  assumes "selected_batch env results userMessage \<noteq> []"
  shows "snd (executeBatch env (JArr (selected_batch env results userMessage))) =
           Inr (detail_results env (selected_batch env results userMessage))"
    and "length (detail_results env (selected_batch env results userMessage)) =
           length (selected_batch env results userMessage)"
proof -
  let ?b = "selected_batch env results userMessage"
  from assms obtain ok where "validateApiCalls (max_api_calls env) (JArr ?b) = Inr ok"
    by (auto simp: selected_batch_def split: sum.splits jsval.splits)
  from validateApiCalls_records [OF this] have "list_all is_record ?b" by simp
  from executeBatch_records [OF this, of env] obtain detail where
    d: "snd (executeBatch env (JArr ?b)) = Inr detail" "length detail = length ?b" by blast
  then show "snd (executeBatch env (JArr ?b)) = Inr (detail_results env ?b)"
    "length (detail_results env ?b) = length ?b"
    by (simp_all add: detail_results_def)
qed

lemma length_detail_results:
  "length (detail_results env (selected_batch env results userMessage)) =
     length (selected_batch env results userMessage)"
  by (cases "selected_batch env results userMessage = []") (simp_all add: selected_batch_executed)

lemma selectionPhase_entered:
  assumes "hasFilterResults results = Inr True" and "results \<noteq> []"
  shows "selectionPhase env results userMessage =
     (refinement_entered # fst (selectRecipes env results userMessage)
        @ detail_events env (selected_batch env results userMessage),
      Inr (detail_results env (selected_batch env results userMessage),
           length (selected_batch env results userMessage),
           selected_batch env results userMessage \<noteq> []))"
proof -
  obtain ev1 res where s: "selectRecipes env results userMessage = (ev1, res)"
    by (cases "selectRecipes env results userMessage") auto
  have p: "selectionPhase env results userMessage =
      (case selectionAttempt env results userMessage of
         (ev, Inl err) \<Rightarrow> (refinement_entered # ev, Inr ([], 0, False))
       | (ev, Inr r) \<Rightarrow> (refinement_entered # ev, Inr r))"
    unfolding selectionPhase_def refinement_entered_def using assms by simp
  show ?thesis
  proof (cases res)
    case (Inl err)
    with s show ?thesis by (simp add: p selectionAttempt_def selected_batch_def)
  next
    case (Inr selection)
    show ?thesis
    proof (cases "js_get selection ''api_calls''")
      case a: (Inl err)
      with s Inr show ?thesis by (simp add: p selectionAttempt_def selected_batch_def)
    next
      case a: (Inr api_calls)
      show ?thesis
      proof (cases "\<exists>calls. api_calls = JArr calls")
        case False
        with s Inr a show ?thesis
          by (cases api_calls) (simp_all add: p selectionAttempt_def selected_batch_def)
      next
        case True
        then obtain calls where c: "api_calls = JArr calls" by blast
        show ?thesis
        proof (cases "validateApiCalls (max_api_calls env) (JArr calls)")
          case v: (Inl err)
          with s Inr a c show ?thesis
            by (simp add: p selectionAttempt_def selected_batch_def)
        next
          case v: (Inr ok)
          from validateApiCalls_records [OF v] have n: "calls \<noteq> []" by simp
          have b: "selected_batch env results userMessage = calls"
            using s Inr a c v by (simp add: selected_batch_def)
          from selected_batch_executed(1) [of env results userMessage] n
          have x: "executeBatch env (JArr calls) =
              (fst (executeBatch env (JArr calls)), Inr (detail_results env calls))"
            unfolding b by (cases "executeBatch env (JArr calls)") simp
          show ?thesis
            unfolding b p
            using s Inr a c v n
            by (simp add: selectionAttempt_def Let_def detail_events_def)
              (subst x, simp)
        qed
      qed
    qed
  qed
qed

lemma selectionPhase_skipped:
  assumes "hasFilterResults results = Inr False"
  shows "selectionPhase env results userMessage = ([refinement_skipped], Inr ([], 0, False))"
  using assms by (simp add: selectionPhase_def refinement_skipped_def)

lemma afterRetrieval_phase:
  assumes "selectionPhase env (successes initialData) userMessage = (ev2, Inr (detail, k, executed))"
  shows "fst (snd (afterRetrieval env userMessage session startTime n initialData w)) =
      ev2 @ Debug ''Phase 3: Synthesizing final response...'' #
        fst (synthesizeResponse env (successes initialData @ detail) userMessage (history session))"
    and "snd (snd (afterRetrieval env userMessage session startTime n initialData w)) = Inr result \<Longrightarrow>
      phasesExecuted result =
        Some (if executed then [''intent_analysis'', ''recipe_selection'', ''synthesis'']
              else [''intent_analysis'', ''synthesis'']) \<and>
      apiCallsMade result = n + k \<and>
      recipeDataFound result = Some (countRecipes (successes initialData @ detail))"
proof -
  let ?s = "successes initialData"
  note p = assms [unfolded successes_def]
  obtain ev4 res where s: "synthesizeResponse env (?s @ detail) userMessage (history session) = (ev4, res)"
    by (cases "synthesizeResponse env (?s @ detail) userMessage (history session)") auto
  note s' = s [unfolded successes_def]
  show "fst (snd (afterRetrieval env userMessage session startTime n initialData w)) =
      ev2 @ Debug ''Phase 3: Synthesizing final response...'' #
        fst (synthesizeResponse env (?s @ detail) userMessage (history session))"
    unfolding s by (cases res) (simp_all add: afterRetrieval_def Let_def p s' split: prod.splits)
  show "snd (snd (afterRetrieval env userMessage session startTime n initialData w)) = Inr result \<Longrightarrow>
      phasesExecuted result =
        Some (if executed then [''intent_analysis'', ''recipe_selection'', ''synthesis'']
              else [''intent_analysis'', ''synthesis'']) \<and>
      apiCallsMade result = n + k \<and>
      recipeDataFound result = Some (countRecipes (successes initialData @ detail))"
    by (cases res) (auto simp: afterRetrieval_def Let_def p s' successes_def split: prod.splits)
qed

lemma synthesizeResponse_no_request:
  "\<not> list_ex is_request (fst (synthesizeResponse env mealData userMessage h))"
  by (simp add: synthesizeResponse_def is_request_def split: sum.splits)

text \<open>A result is filter-style when it has records and is not lookup-style.\<close>

lemma filter_style_lookup_style:
  "filter_style r = ((\<exists>first rest. res_meals r = Some (first # rest)) \<and> \<not> lookup_style r)"
  by (auto simp: filter_style_def lookup_style_def split: option.splits list.splits)

text \<open>
  Claim C6, for results of the retrieval whose records are record-like mappings and whose
  first records either lack the instructions field or carry a non-empty value in it. When
  no successful result is filter-style, phase 2 is skipped: the skip is logged, the
  synthesis follows at once on the successful results, no request is sent to the data
  source, and a returned outcome lists the phases \<open>intent_analysis\<close> and \<open>synthesis\<close> and
  counts the calls of the retrieval alone. When one successful result is filter-style,
  phase 2 is entered: its entry is logged and \<open>selectRecipes\<close> runs on the successful
  results; the operations it yields are sent to the data source, one result per operation
  is merged into the data of the synthesis, and \<open>recipe_selection\<close> is listed, exactly when
  they are a non-empty batch that the validator accepts; otherwise the synthesis follows on
  the successful results alone.
\<close>

theorem refinement_decision:
  assumes "snd (executeBatch env apiCalls) = Inr initialData"
    and "list_all is_record (all_records (successes initialData))"
    and "list_all instructions_nonempty (successes initialData)"
  shows
    "((\<forall>r \<in> set (successes initialData). \<not> filter_style r) \<longrightarrow>
        fst (snd (afterRetrieval env userMessage session startTime n initialData w)) =
          refinement_skipped # Debug ''Phase 3: Synthesizing final response...'' #
            fst (synthesizeResponse env (successes initialData) userMessage (history session)) \<and>
        \<not> list_ex is_request (fst (snd (afterRetrieval env userMessage session startTime n initialData w))) \<and>
        (\<forall>result. snd (snd (afterRetrieval env userMessage session startTime n initialData w)) = Inr result
           \<longrightarrow> phasesExecuted result = Some [''intent_analysis'', ''synthesis''] \<and>
               apiCallsMade result = n \<and>
               recipeDataFound result = Some (countRecipes (successes initialData)))) \<and>
     ((\<exists>r \<in> set (successes initialData). filter_style r) \<longrightarrow>
        fst (snd (afterRetrieval env userMessage session startTime n initialData w)) =
          refinement_entered # fst (selectRecipes env (successes initialData) userMessage)
            @ detail_events env (selected_batch env (successes initialData) userMessage)
            @ Debug ''Phase 3: Synthesizing final response...'' #
              fst (synthesizeResponse env
                     (successes initialData
                        @ detail_results env (selected_batch env (successes initialData) userMessage))
                     userMessage (history session)) \<and>
        length (detail_results env (selected_batch env (successes initialData) userMessage)) =
          length (selected_batch env (successes initialData) userMessage) \<and>
        (\<forall>result. snd (snd (afterRetrieval env userMessage session startTime n initialData w)) = Inr result
           \<longrightarrow> phasesExecuted result =
                 Some (if selected_batch env (successes initialData) userMessage \<noteq> []
                       then [''intent_analysis'', ''recipe_selection'', ''synthesis'']
                       else [''intent_analysis'', ''synthesis'']) \<and>
               apiCallsMade result =
                 n + length (selected_batch env (successes initialData) userMessage) \<and>
               recipeDataFound result =
                 Some (countRecipes
                   (successes initialData
                      @ detail_results env (selected_batch env (successes initialData) userMessage)))))"
proof -
  let ?S = "successes initialData"
  let ?ev = "fst (snd (afterRetrieval env userMessage session startTime n initialData w))"
  let ?res = "snd (snd (afterRetrieval env userMessage session startTime n initialData w))"
  let ?b = "selected_batch env ?S userMessage"
  have u: "\<forall>r \<in> set ?S. (res_meals r \<noteq> None \<longrightarrow> \<not> res_isEmpty r) \<and> instructions_nonempty r"
  proof
    fix r assume r: "r \<in> set ?S"
    then have "r \<in> set initialData" by (simp add: successes_def)
    with executeBatch_unmarked [OF assms(1)] have "res_meals r \<noteq> None \<longrightarrow> \<not> res_isEmpty r"
      by auto
    moreover from r assms(3) have "instructions_nonempty r" by (simp add: list_all_iff)
    ultimately show "(res_meals r \<noteq> None \<longrightarrow> \<not> res_isEmpty r) \<and> instructions_nonempty r" ..
  qed
  note h = hasFilterResults_filter_style [OF u assms(2)]
  show ?thesis
  proof (intro conjI impI)
    assume a: "\<forall>r \<in> set ?S. \<not> filter_style r"
    then have "hasFilterResults ?S = Inr False" by (simp add: h)
    note p = selectionPhase_skipped [OF this, of env userMessage]
    note r = afterRetrieval_phase [OF p, of session startTime n w]
    show e: "?ev = refinement_skipped # Debug ''Phase 3: Synthesizing final response...'' #
            fst (synthesizeResponse env ?S userMessage (history session))"
      using r(1) by simp
    show "\<not> list_ex is_request ?ev"
      unfolding e
      using synthesizeResponse_no_request [of env ?S userMessage "history session"]
      by (simp add: is_request_def refinement_skipped_def)
    show "\<forall>result. ?res = Inr result
           \<longrightarrow> phasesExecuted result = Some [''intent_analysis'', ''synthesis''] \<and>
               apiCallsMade result = n \<and>
               recipeDataFound result = Some (countRecipes ?S)"
      using r(2) by simp
  next
    assume a: "\<exists>r \<in> set ?S. filter_style r"
    then have t: "hasFilterResults ?S = Inr True" and ne: "?S \<noteq> []" by (auto simp: h)
    note p = selectionPhase_entered [OF t ne, of env userMessage]
    note r = afterRetrieval_phase [OF p, of session startTime n w]
    show "?ev = refinement_entered # fst (selectRecipes env ?S userMessage)
            @ detail_events env ?b
            @ Debug ''Phase 3: Synthesizing final response...'' #
              fst (synthesizeResponse env (?S @ detail_results env ?b) userMessage (history session))"
      using r(1) by simp
    show "length (detail_results env ?b) = length ?b" by (rule length_detail_results)
    show "\<forall>result. ?res = Inr result
           \<longrightarrow> phasesExecuted result =
                 Some (if ?b \<noteq> []
                       then [''intent_analysis'', ''recipe_selection'', ''synthesis'']
                       else [''intent_analysis'', ''synthesis'']) \<and>
               apiCallsMade result = n + length ?b \<and>
               recipeDataFound result = Some (countRecipes (?S @ detail_results env ?b))"
      using r(2) by simp
  qed
qed


text \<open>
  The theorem at the five summary records of the example, for which phase 2 selects and
  looks up the first three, and at one full record, for which it is skipped.
\<close>

theorem refinement_decision_witness:
  "snd (executeBatch demo_env demo_calls) = Inr [createValidResponse demo_summaries] \<and>
   list_all is_record (all_records (successes [createValidResponse demo_summaries])) \<and>
   list_all instructions_nonempty (successes [createValidResponse demo_summaries]) \<and>
   filter_style (createValidResponse demo_summaries) \<and>
   fst (snd (afterRetrieval demo_env ''dishes with chicken''
       (fst (getSession demo_env None empty_world)) 0 1 [createValidResponse demo_summaries]
       (snd (getSession demo_env None empty_world)))) =
     [refinement_entered, Invoke 2, Debug ''Phase 2: Executing 3 detail calls...'',
      Get (JStr ''lookup.php'') (JObj [(''i'', JStr ''52771'')]),
      Get (JStr ''lookup.php'') (JObj [(''i'', JStr ''52772'')]),
      Get (JStr ''lookup.php'') (JObj [(''i'', JStr ''52773'')]),
      Debug ''Phase 3: Synthesizing final response...'', Invoke 3] \<and>
   snd (executeBatch demo_env (JArr [demo_lookup ''52771'']))
     = Inr [createValidResponse [demo_detail (JStr ''52771'')]] \<and>
   list_all is_record (all_records (successes [createValidResponse [demo_detail (JStr ''52771'')]])) \<and>
   list_all instructions_nonempty (successes [createValidResponse [demo_detail (JStr ''52771'')]]) \<and>
   lookup_style (createValidResponse [demo_detail (JStr ''52771'')]) \<and>
   \<not> filter_style (createValidResponse [demo_detail (JStr ''52771'')]) \<and>
   fst (snd (afterRetrieval demo_env ''chicken handi''
       (fst (getSession demo_env None empty_world)) 0 1
       [createValidResponse [demo_detail (JStr ''52771'')]]
       (snd (getSession demo_env None empty_world)))) =
     [refinement_skipped, Debug ''Phase 3: Synthesizing final response...'', Invoke 3]"
proof -
  let ?f = "[createValidResponse demo_summaries]"
  let ?l = "[createValidResponse [demo_detail (JStr ''52771'')]]"
  let ?s = "fst (getSession demo_env None empty_world)"
  let ?w = "snd (getSession demo_env None empty_world)"
  let ?b = "[demo_lookup ''52771'', demo_lookup ''52772'', demo_lookup ''52773'']"
  have s: "successes ?f = ?f" "successes ?l = ?l"
    by (simp_all add: successes_def createValidResponse_def)
  have x: "snd (executeBatch demo_env demo_calls) = Inr ?f"
    "snd (executeBatch demo_env (JArr [demo_lookup ''52771''])) = Inr ?l"
    by code_simp+
  have r: "list_all is_record (all_records (successes ?f))"
    "list_all is_record (all_records (successes ?l))"
    by code_simp+
  have i: "list_all instructions_nonempty (successes ?f)"
    "list_all instructions_nonempty (successes ?l)"
    by code_simp+
  have f: "filter_style (createValidResponse demo_summaries)"
    "lookup_style (createValidResponse [demo_detail (JStr ''52771'')])"
    "\<not> filter_style (createValidResponse [demo_detail (JStr ''52771'')])"
    by code_simp+
  have b: "selected_batch demo_env ?f ''dishes with chicken'' = ?b"
    by code_simp
  have d: "detail_events demo_env ?b =
     [Debug ''Phase 2: Executing 3 detail calls...'',
      Get (JStr ''lookup.php'') (JObj [(''i'', JStr ''52771'')]),
      Get (JStr ''lookup.php'') (JObj [(''i'', JStr ''52772'')]),
      Get (JStr ''lookup.php'') (JObj [(''i'', JStr ''52773'')])]"
    by code_simp
  have e: "fst (selectRecipes demo_env ?f ''dishes with chicken'') = [Invoke 2]"
    by (simp add: selectRecipes_def demo_env_def)
  have y: "fst (synthesizeResponse demo_env mealData userMessage h) = [Invoke 3]"
    for mealData userMessage h
    by (simp add: synthesizeResponse_def demo_env_def)
  from refinement_decision [OF x(1) r(1) i(1), of "''dishes with chicken''" ?s 0 1 ?w] f(1)
  have 1: "fst (snd (afterRetrieval demo_env ''dishes with chicken'' ?s 0 1 ?f ?w)) =
     [refinement_entered, Invoke 2, Debug ''Phase 2: Executing 3 detail calls...'',
      Get (JStr ''lookup.php'') (JObj [(''i'', JStr ''52771'')]),
      Get (JStr ''lookup.php'') (JObj [(''i'', JStr ''52772'')]),
      Get (JStr ''lookup.php'') (JObj [(''i'', JStr ''52773'')]),
      Debug ''Phase 3: Synthesizing final response...'', Invoke 3]"
    by (simp add: s b d e y)
  from refinement_decision [OF x(2) r(2) i(2), of "''chicken handi''" ?s 0 1 ?w] f(3)
  have 2: "fst (snd (afterRetrieval demo_env ''chicken handi'' ?s 0 1 ?l ?w)) =
     [refinement_skipped, Debug ''Phase 3: Synthesizing final response...'', Invoke 3]"
    by (simp add: s y)
  from x r i f 1 2 show ?thesis by blast
qed

text \<open>
  Claim C6, as it is stated, fails in both directions. A retrieval whose one record carries
  the instructions field with the empty text is lookup-style in the words of the claim, yet
  phase 2 runs to its end: \<open>isFilterResult\<close> tests the value of the field, not its
  presence. And a retrieval whose one record is a summary without identifier is
  filter-style, yet no detail request is sent and the outcome does not list
  \<open>recipe_selection\<close>: the fallback selection yields a lookup without identifier, which the
  validator rejects, and that failure is swallowed.
\<close>

theorem refinement_decision_counterexample:
  "snd (executeBatch (payload_env blank_instructions_record) demo_calls)
     = Inr [createValidResponse [blank_instructions_record]] \<and>
   successes [createValidResponse [blank_instructions_record]]
     = [createValidResponse [blank_instructions_record]] \<and>
   lookup_style (createValidResponse [blank_instructions_record]) \<and>
   \<not> filter_style (createValidResponse [blank_instructions_record]) \<and>
   fst (snd (processRequest (payload_env blank_instructions_record) ''dishes with chicken'' None
               empty_world)) =
     [Debug ''Phase 1: Analyzing user intent...'', Invoke 1,
      Debug ''Phase 1: Executing 1 API calls...'',
      Get (JStr ''filter.php'') (JObj [(''i'', JStr ''Chicken'')]),
      refinement_entered, Invoke 2,
      Debug ''Phase 2: Executing 1 detail calls...'',
      Get (JStr ''lookup.php'') (JObj [(''i'', JStr ''52771'')]),
      Debug ''Phase 3: Synthesizing final response...'', Invoke 3] \<and>
   snd (snd (processRequest (payload_env blank_instructions_record) ''dishes with chicken'' None
               empty_world)) =
     Inr \<lparr>message = JStr ''Here are three chicken dishes.'', sessionId = ''uuid-0'',
          processingTime = 6, apiCallsMade = 2,
          phasesExecuted = Some [''intent_analysis'', ''recipe_selection'', ''synthesis''],
          recipeDataFound = Some 2, error = False, errorMessage = None\<rparr> \<and>
   snd (executeBatch (payload_env unidentified_record) demo_calls)
     = Inr [createValidResponse [unidentified_record]] \<and>
   successes [createValidResponse [unidentified_record]]
     = [createValidResponse [unidentified_record]] \<and>
   filter_style (createValidResponse [unidentified_record]) \<and>
   fst (snd (processRequest (payload_env unidentified_record) ''dishes with chicken'' None
               empty_world)) =
     [Debug ''Phase 1: Analyzing user intent...'', Invoke 1,
      Debug ''Phase 1: Executing 1 API calls...'',
      Get (JStr ''filter.php'') (JObj [(''i'', JStr ''Chicken'')]),
      refinement_entered, Invoke 2,
      Debug ''Phase 3: Synthesizing final response...'', Invoke 3] \<and>
   snd (snd (processRequest (payload_env unidentified_record) ''dishes with chicken'' None
               empty_world)) =
     Inr \<lparr>message = JStr ''Here are three chicken dishes.'', sessionId = ''uuid-0'',
          processingTime = 6, apiCallsMade = 1,
          phasesExecuted = Some [''intent_analysis'', ''synthesis''],
          recipeDataFound = Some 1, error = False, errorMessage = None\<rparr>"
  by code_simp

section \<open>The error outcome\<close>






text \<open>
  The \<open>catch\<close> block run without session returns the next identifier of the generator and
  stores nothing.
\<close>

lemma processRequest_catch_without_session:
  "sessionId (fst (processRequest_catch env e userMessage None startTime w)) = uuidv4 env (uuids w)"
  "sessions (snd (processRequest_catch env e userMessage None startTime w)) = sessions w"
  "uuids (snd (processRequest_catch env e userMessage None startTime w)) = Suc (uuids w)"
  by (simp_all add: processRequest_catch_def next_uuid_def new_Date_def Let_def)




section \<open>The rules of a filter operation\<close>

lemma validation_failure_simps [simp]:
  "validation_failure (Inl (ValidationError msg (Some code)))"
  "\<not> validation_failure (Inr x)"
  by (auto simp: validation_failure_def)

lemma validateParam_string_result:
  assumes "k = ''i'' \<or> k = ''c''"
  shows "validateParam k (JStr s) = Inr () \<or> validation_failure (validateParam k (JStr s))"
proof -
  from assms consider "k = ''i''" | "k = ''c''" by blast
  then show ?thesis
  proof cases
    case 1
    then show ?thesis
      by (simp add: validateParam_def PARAM_RULES_def validateParamBasics_def
          validateParamEnum_def bind_err_def)
  next
    case 2
    then show ?thesis
      by (simp add: validateParam_def PARAM_RULES_def validateParamBasics_def
          validateParamEnum_def bind_err_def)
  qed
qed

lemma validation_failure_bind:
  "m = Inr () \<or> validation_failure m \<Longrightarrow> f () = Inr () \<or> validation_failure (f ()) \<Longrightarrow>
   bind_err m f = Inr () \<or> validation_failure (bind_err m f)"
  by (cases m) (auto simp: validation_failure_def)

lemma validateFilterParams_result:
  assumes "str_or_undef (pget ps ''i'')" "str_or_undef (pget ps ''c'')"
  shows "validateFilterParams (JObj ps) = Inr () \<or> validation_failure (validateFilterParams (JObj ps))"
proof -
  let ?i = "pget ps ''i''" and ?c = "pget ps ''c''"
  have g: "js_get (JObj ps) ''i'' = Inr ?i" "js_get (JObj ps) ''c'' = Inr ?c"
    by (simp_all add: pget_def)
  have f: "validateFilterParams (JObj ps) =
      bind_err (validateFilterParamPresence ?i ?c) (\<lambda>_. validateFilterParamValues (JObj ps) ?i ?c)"
    unfolding validateFilterParams_def g by simp
  have p: "validateFilterParamPresence ?i ?c = Inr () \<or>
      validation_failure (validateFilterParamPresence ?i ?c)"
    by (simp add: validateFilterParamPresence_def)
  have vi: "bind_err (js_get (JObj ps) ''i'') (validateParam ''i'') = Inr () \<or>
      validation_failure (bind_err (js_get (JObj ps) ''i'') (validateParam ''i''))"
    if "js_truthy ?i"
  proof -
    from that assms(1) obtain s where s: "?i = JStr s" by (auto simp: str_or_undef_def)
    from validateParam_string_result [of "''i''" s] show ?thesis unfolding g s by simp
  qed
  have vc: "bind_err (js_get (JObj ps) ''c'') (validateParam ''c'') = Inr () \<or>
      validation_failure (bind_err (js_get (JObj ps) ''c'') (validateParam ''c''))"
    if "js_truthy ?c"
  proof -
    from that assms(2) obtain s where s: "?c = JStr s" by (auto simp: str_or_undef_def)
    from validateParam_string_result [of "''c''" s] show ?thesis unfolding g s by simp
  qed
  have v: "validateFilterParamValues (JObj ps) ?i ?c = Inr () \<or>
      validation_failure (validateFilterParamValues (JObj ps) ?i ?c)"
    unfolding validateFilterParamValues_def
    by (rule validation_failure_bind) (use vi vc in auto)
  show ?thesis unfolding f by (rule validation_failure_bind) (use p v in auto)
qed

text \<open>
  What the validator requires of a filter operation: exactly one of the ingredient and the
  category is present, and the present value is within its length bound, 50 for the
  ingredient and 30 for the category; a category is moreover one of \<open>MEALDB_CATEGORIES\<close>,
  whatever the case of its letters. A filter that fails one of these requirements is
  rejected with a \<open>ValidationError\<close> that carries a message and a code.
\<close>

lemma validateFilterParams_requirements:
  assumes "well_formed_operation op" and "op_kind op = ''filter.php''"
  shows "((validateApiCall op = Inr True) =
            (((op_param op ''i'' \<noteq> []) \<noteq> (op_param op ''c'' \<noteq> [])) \<and>
             (op_param op ''i'' \<noteq> [] \<longrightarrow> length (op_param op ''i'') \<le> 50) \<and>
             (op_param op ''c'' \<noteq> [] \<longrightarrow>
                length (op_param op ''c'') \<le> 30 \<and>
                in_vocabulary MEALDB_CATEGORIES (op_param op ''c'')))) \<and>
         (validateApiCall op = Inr True \<or>
            (\<exists>msg code. validateApiCall op = Inl (ValidationError msg (Some code))))"
proof -
  from wf_shape [OF assms(1)] obtain props e ps where
    s: "op = JObj props" "map_of props ''endpoint'' = Some (JStr e)"
       "map_of props ''params'' = Some (JObj ps)" and su: "\<And>k. str_or_undef (pget ps k)"
    by blast
  from s assms(2) have e: "e = ''filter.php''" by (simp add: op_kind_def)
  have v: "validateApiCall op = bind_err (validateFilterParams (JObj ps)) (\<lambda>_. Inr True)"
    using s e
    by (simp add: validateApiCall_def validateApiCallStructure_def validateEndpoint_def
        validateParams_def ALLOWED_ENDPOINTS_def validateEndpointSpecificParams_def)
  from validateFilterParams_result [OF su su]
  have r: "validateApiCall op = Inr True \<or>
            (\<exists>msg code. validateApiCall op = Inl (ValidationError msg (Some code)))"
    unfolding v by (cases "validateFilterParams (JObj ps)") (auto simp: validation_failure_def)
  from validateApiCall_operation [OF assms(1)] assms(2) r show ?thesis by simp
qed

text \<open>
  A filter by a category written in mixed case, which is accepted, and a filter by a
  category outside the vocabulary, which is rejected.
\<close>

lemma validateFilterParams_requirements_examples:
  "well_formed_operation (JObj [(''endpoint'', JStr ''filter.php''), (''params'', JObj [(''c'', JStr ''vEGAN'')])]) \<and>
   op_kind (JObj [(''endpoint'', JStr ''filter.php''), (''params'', JObj [(''c'', JStr ''vEGAN'')])]) = ''filter.php'' \<and>
   validateApiCall (JObj [(''endpoint'', JStr ''filter.php''), (''params'', JObj [(''c'', JStr ''vEGAN'')])]) = Inr True \<and>
   well_formed_operation (JObj [(''endpoint'', JStr ''filter.php''), (''params'', JObj [(''c'', JStr ''unobtainium'')])]) \<and>
   \<not> in_vocabulary MEALDB_CATEGORIES ''unobtainium'' \<and>
   (\<exists>msg code. validateApiCall (JObj [(''endpoint'', JStr ''filter.php''), (''params'', JObj [(''c'', JStr ''unobtainium'')])])
      = Inl (ValidationError msg (Some code)))"
proof -
  let ?a = "JObj [(''endpoint'', JStr ''filter.php''), (''params'', JObj [(''c'', JStr ''vEGAN'')])]"
  let ?b = "JObj [(''endpoint'', JStr ''filter.php''), (''params'', JObj [(''c'', JStr ''unobtainium'')])]"
  have w: "well_formed_operation ?a" "well_formed_operation ?b"
    by (simp_all add: well_formed_operation_def)
  have k: "op_kind ?a = ''filter.php''" "op_kind ?b = ''filter.php''"
    by (simp_all add: op_kind_def)
  have p: "op_param ?a ''i'' = []" "op_param ?a ''c'' = ''vEGAN''"
    "op_param ?b ''i'' = []" "op_param ?b ''c'' = ''unobtainium''"
    by (simp_all add: op_param_def)
  have v: "in_vocabulary MEALDB_CATEGORIES ''vEGAN''" "\<not> in_vocabulary MEALDB_CATEGORIES ''unobtainium''"
    by code_simp+
  from validateFilterParams_requirements [OF w(1) k(1)] v(1)
  have a: "validateApiCall ?a = Inr True" by (simp add: p)
  from validateFilterParams_requirements [OF w(2) k(2)] v(2)
  have "validateApiCall ?b \<noteq> Inr True" by (simp add: p)
  with validateFilterParams_requirements [OF w(2) k(2)]
  have b: "\<exists>msg code. validateApiCall ?b = Inl (ValidationError msg (Some code))"
    by blast
  from w k a b v(2) show ?thesis by blast
qed

text \<open>
  Claim C4. The rule of the parameter \<open>i\<close> lists \<open>COMMON_INGREDIENTS\<close> as its enumeration, and
  \<open>validateParamEnum\<close> is the check of a value against the enumeration of its rule,
  written for ingredients and categories alike. Its guard skips the parameter \<open>i\<close>, for the
  sake of the identifiers of lookups, which \<open>validateLookupParams\<close> never passes to
  \<open>validateParam\<close>: the only values the guard exempts are the ingredients of filters. So the
  value \<open>unobtainium\<close>, which is in neither vocabulary, is rejected as a category and
  accepted as an ingredient, and the filter by this ingredient passes \<open>validateApiCall\<close>
  and \<open>validateApiCalls\<close>.
\<close>

theorem validateApiCall_unlisted_ingredient:
  "map_option enum (PARAM_RULES ''i'') = Some (Some (map toLowerCase COMMON_INGREDIENTS)) \<and>
   \<not> in_vocabulary COMMON_INGREDIENTS ''unobtainium'' \<and>
   \<not> in_vocabulary MEALDB_CATEGORIES ''unobtainium'' \<and>
   validateParam ''c'' (JStr ''unobtainium'') \<noteq> Inr () \<and>
   validateParam ''i'' (JStr ''unobtainium'') = Inr () \<and>
   well_formed_operation (JObj [(''endpoint'', JStr ''filter.php''), (''params'', JObj [(''i'', JStr ''unobtainium'')])]) \<and>
   validateApiCall (JObj [(''endpoint'', JStr ''filter.php''), (''params'', JObj [(''i'', JStr ''unobtainium'')])])
     = Inr True \<and>
   validateApiCalls (MAX_API_CALLS None)
     (JArr [JObj [(''endpoint'', JStr ''filter.php''), (''params'', JObj [(''i'', JStr ''unobtainium'')])]])
     = Inr True"
  by code_simp

end
